theory Spec2Isabelle
  imports Main
begin

section \<open>The writing-prompt bot (main.py): data model\<close>

text \<open>
  Exceptions of the Python code are values. \<open>TelegramError\<close> stands for whatever
  \<open>bot.send_message\<close> raises when a message cannot be delivered; \<open>TypeError\<close> is what
  subscripting the \<open>None\<close> returned by \<open>fetchone\<close> would raise.
\<close>

datatype error =
    FileNotFoundError
  | JSONDecodeError
  | ValueError string
  | RuntimeError
  | AttributeError
  | TypeError
  | ZeroDivisionError
  | TelegramError

text \<open>
  What \<open>json.load\<close> can return, and what opening and parsing a file can give:
  the file is missing (\<open>open\<close> raises), it is not JSON (\<open>json.load\<close> raises), or
  it holds a JSON value.
\<close>

datatype json =
    JNull
  | JBool bool
  | JNumber int
  | JString string
  | JArray "json list"
  | JObject "(string \<times> json) list"

datatype file_content = NoFile | BadJson | Json json

text \<open>
  A \<open>datetime\<close> is aware (an instant on the time line, counted in microseconds) or naive
  (a wall-clock reading in microseconds, with no zone). \<open>Europe/Moscow\<close> is taken at its
  offset of three hours, which it has had since October 2014.
\<close>

datatype datetime = Aware int | Naive int

definition msk_utcoffset :: int where
  "msk_utcoffset = 3 * 3600 * 1000000"

definition hours24 :: int where
  "hours24 = 24 * 3600 * 1000000"

text \<open>
  \<open>last_dt.replace(tzinfo=TZ_MSK)\<close> reads a naive wall clock as Moscow time,
  \<open>last_dt.astimezone(TZ_MSK)\<close> keeps the instant of an aware one. The result is
  the instant that \<open>now - last_dt\<close> subtracts.
\<close>

fun to_msk :: "datetime \<Rightarrow> int" where
  "to_msk (Naive wall) = wall - msk_utcoffset"
| "to_msk (Aware inst) = inst"

text \<open>
  The TEXT column \<open>last_prompt_ts\<close> is modelled by what \<open>datetime.fromisoformat\<close>
  makes of the stored string: either it parses to a datetime, or it raises.
  \<open>isoformat\<close> writes a string that parses back to the same datetime.
\<close>

datatype ts_text = IsoText datetime | BadText string

definition isoformat :: "datetime \<Rightarrow> ts_text" where
  "isoformat d = IsoText d"

fun fromisoformat :: "ts_text \<Rightarrow> error + datetime" where
  "fromisoformat (IsoText d) = Inr d"
| "fromisoformat (BadText s) = Inl (ValueError s)"

text \<open>A row of the table \<open>users\<close>; the two flags are INTEGER columns.\<close>

record user_row =
  user_id :: int
  prompt_index :: int
  last_prompt_ts :: "ts_text option"
  answered :: int
  reminder_sent :: int

text \<open>
  An outbound message is the chat it goes to and its text. The text is kept as the
  locale key and the arguments that \<open>L\<close> formats into it.
\<close>

type_synonym msg_text = "string \<times> string list"
type_synonym message = "int \<times> msg_text"

definition L :: "string \<Rightarrow> string list \<Rightarrow> msg_text" where
  "L key args = (key, args)"

text \<open>
  The state the handlers and jobs act on: the table, in the order \<open>SELECT *\<close> lists it,
  and the messages delivered so far. The transport decides, from what has been delivered
  and the message at hand, whether \<open>send_message\<close> delivers or raises.
\<close>

record world =
  db :: "user_row list"
  outbox :: "message list"

type_synonym transport = "message list \<Rightarrow> message \<Rightarrow> bool"

definition reliable :: transport where
  "reliable delivered m = True"

definition unreachable :: "int \<Rightarrow> transport" where
  "unreachable chat delivered m = (fst m \<noteq> chat)"

text \<open>
  An incoming update: the chat of \<open>update.message\<close> (absent when the update carries no
  message, as for an edited message) and the id of \<open>update.effective_user\<close>.
\<close>

record update =
  message_chat :: "int option"
  effective_user :: "int option"

type_synonym outcome = "error option \<times> world"

text \<open>Sequencing: an exception ends the handler with the state reached so far.\<close>

definition and_then :: "outcome \<Rightarrow> (world \<Rightarrow> outcome) \<Rightarrow> outcome" where
  "and_then r k = (case r of (Some e, w) \<Rightarrow> (Some e, w) | (None, w) \<Rightarrow> k w)"

section \<open>The store\<close>

text \<open>
  The table \<open>users\<close> is a list of rows in the order \<open>SELECT *\<close> lists them:
  \<open>user_id\<close> is the INTEGER PRIMARY KEY, so the rows come by ascending \<open>user_id\<close>.
  \<open>INSERT OR IGNORE\<close> puts the default row at its place in that order when no row has
  the id, \<open>UPDATE ... WHERE user_id = ?\<close> rewrites the rows with the id, \<open>DELETE\<close>
  removes them, and \<open>fetchone\<close> gives the first row with the id, if any.
  The database file is taken to be reachable: the errors of sqlite itself are not part of
  the model.
\<close>

definition default_row :: "int \<Rightarrow> user_row" where
  "default_row uid =
     \<lparr>user_id = uid, prompt_index = 0, last_prompt_ts = None, answered = 0, reminder_sent = 0\<rparr>"

definition db_init :: "user_row list option \<Rightarrow> user_row list" where
  "db_init tbl = (case tbl of None \<Rightarrow> [] | Some rows \<Rightarrow> rows)"

definition db_ensure_user :: "int \<Rightarrow> user_row list \<Rightarrow> user_row list" where
  "db_ensure_user uid rows =
     (if uid \<in> set (map user_id rows) then rows
      else insort_key user_id (default_row uid) rows)"

definition db_get_user :: "int \<Rightarrow> user_row list \<Rightarrow> user_row option" where
  "db_get_user uid rows = find (\<lambda>r. user_id r = uid) rows"

definition update_where :: "int \<Rightarrow> (user_row \<Rightarrow> user_row) \<Rightarrow> user_row list \<Rightarrow> user_row list" where
  "update_where uid f rows = map (\<lambda>r. if user_id r = uid then f r else r) rows"

definition db_mark_prompt_sent :: "int \<Rightarrow> int \<Rightarrow> datetime \<Rightarrow> user_row list \<Rightarrow> user_row list" where
  "db_mark_prompt_sent uid idx sent_dt rows =
     update_where uid
       (\<lambda>r. r\<lparr>prompt_index := idx, last_prompt_ts := Some (isoformat sent_dt),
              answered := 0, reminder_sent := 0\<rparr>) rows"

definition db_mark_answered :: "int \<Rightarrow> user_row list \<Rightarrow> user_row list" where
  "db_mark_answered uid rows = update_where uid (\<lambda>r. r\<lparr>answered := 1\<rparr>) rows"

definition db_mark_reminder_sent :: "int \<Rightarrow> user_row list \<Rightarrow> user_row list" where
  "db_mark_reminder_sent uid rows = update_where uid (\<lambda>r. r\<lparr>reminder_sent := 1\<rparr>) rows"

definition db_all_users :: "user_row list \<Rightarrow> user_row list" where
  "db_all_users rows = rows"

definition db_delete_user :: "int \<Rightarrow> user_row list \<Rightarrow> user_row list" where
  "db_delete_user uid rows = filter (\<lambda>r. user_id r \<noteq> uid) rows"

section \<open>The prompt catalog and the locales\<close>

fun is_str :: "json \<Rightarrow> bool" where
  "is_str (JString s) = True"
| "is_str j = False"

fun str_of :: "json \<Rightarrow> string" where
  "str_of (JString s) = s"
| "str_of j = []"

definition load_prompts :: "file_content \<Rightarrow> error + string list" where
  "load_prompts f =
     (case f of
        NoFile \<Rightarrow> Inl FileNotFoundError
      | BadJson \<Rightarrow> Inl JSONDecodeError
      | Json data \<Rightarrow>
          (case data of
             JArray xs \<Rightarrow>
               if \<not> list_all is_str xs
               then Inl (ValueError ''prompts.json must be a JSON array of strings'')
               else if xs = [] then Inl (ValueError ''prompts.json is empty'')
               else Inr (map str_of xs)
           | _ \<Rightarrow> Inl (ValueError ''prompts.json must be a JSON array of strings'')))"

fun load_locales_files :: "(string \<times> file_content) list \<Rightarrow> (string \<times> json) list \<Rightarrow> error + (string \<times> json) list" where
  "load_locales_files [] locales = Inr locales"
| "load_locales_files ((name, f) # rest) locales =
     (case f of
        NoFile \<Rightarrow> Inl FileNotFoundError
      | BadJson \<Rightarrow> Inl JSONDecodeError
      | Json data \<Rightarrow>
          load_locales_files rest
            ((takeWhile (\<lambda>c. c \<noteq> CHR ''.'') name, data) # filter (\<lambda>kv. fst kv \<noteq> takeWhile (\<lambda>c. c \<noteq> CHR ''.'') name) locales))"

definition load_locales :: "(string \<times> file_content) list option \<Rightarrow> error + (string \<times> json) list" where
  "load_locales dir =
     (case dir of None \<Rightarrow> Inl FileNotFoundError | Some files \<Rightarrow> load_locales_files files [])"

section \<open>Sending\<close>

definition send_message :: "transport \<Rightarrow> message \<Rightarrow> world \<Rightarrow> outcome" where
  "send_message tr m w =
     (if tr (outbox w) m then (None, w\<lparr>outbox := outbox w @ [m]\<rparr>) else (Some TelegramError, w))"

definition reply_text :: "transport \<Rightarrow> update \<Rightarrow> msg_text \<Rightarrow> world \<Rightarrow> outcome" where
  "reply_text tr upd txt w =
     (case message_chat upd of
        None \<Rightarrow> (Some AttributeError, w)
      | Some chat \<Rightarrow> send_message tr (chat, txt) w)"

definition send_prompt_to_user :: "transport \<Rightarrow> int \<Rightarrow> string \<Rightarrow> world \<Rightarrow> outcome" where
  "send_prompt_to_user tr uid prompt_text w =
     send_message tr (uid, L ''message.sendprompt'' [prompt_text]) w"

definition send_reminder_to_user :: "transport \<Rightarrow> int \<Rightarrow> world \<Rightarrow> outcome" where
  "send_reminder_to_user tr uid w = send_message tr (uid, L ''message.reminder'' []) w"

section \<open>The daily job\<close>

definition maybe_send_next_prompt ::
    "transport \<Rightarrow> user_row \<Rightarrow> string list \<Rightarrow> datetime \<Rightarrow> world \<Rightarrow> outcome" where
  "maybe_send_next_prompt tr user_row prompts sent_time w =
     (let uid = user_id user_row;
          idx = prompt_index user_row
      in if answered user_row \<noteq> 1
         then send_message tr (uid, L ''message.reminder'' []) w
         else if prompts = [] then (Some ZeroDivisionError, w)
         else let next_idx = (idx + 1) mod int (length prompts)
              in and_then (send_prompt_to_user tr uid (prompts ! nat next_idx) w)
                   (\<lambda>w'. (None, w'\<lparr>db := db_mark_prompt_sent uid next_idx sent_time (db w')\<rparr>)))"

fun daily_loop :: "transport \<Rightarrow> string list \<Rightarrow> datetime \<Rightarrow> user_row list \<Rightarrow> world \<Rightarrow> outcome" where
  "daily_loop tr prompts sent_time [] w = (None, w)"
| "daily_loop tr prompts sent_time (u # us) w =
     and_then (maybe_send_next_prompt tr u prompts sent_time w)
       (daily_loop tr prompts sent_time us)"

definition daily_9_msk_job :: "transport \<Rightarrow> file_content \<Rightarrow> int \<Rightarrow> world \<Rightarrow> outcome" where
  "daily_9_msk_job tr prompts_file now w =
     (case load_prompts prompts_file of
        Inl e \<Rightarrow> (Some e, w)
      | Inr prompts \<Rightarrow> daily_loop tr prompts (Aware now) (db_all_users (db w)) w)"

section \<open>The reminder scan\<close>

definition reminder_scan_user :: "transport \<Rightarrow> int \<Rightarrow> user_row \<Rightarrow> world \<Rightarrow> outcome" where
  "reminder_scan_user tr now u w =
     (case last_prompt_ts u of
        None \<Rightarrow> (None, w)
      | Some ts \<Rightarrow>
          if answered u = 1 then (None, w)
          else if reminder_sent u = 1 then (None, w)
          else (case fromisoformat ts of
                  Inl e \<Rightarrow> (None, w)
                | Inr last_dt \<Rightarrow>
                    if now - to_msk last_dt \<ge> hours24
                    then and_then (send_reminder_to_user tr (user_id u) w)
                           (\<lambda>w'. (None, w'\<lparr>db := db_mark_reminder_sent (user_id u) (db w')\<rparr>))
                    else (None, w)))"

fun reminder_scan_loop :: "transport \<Rightarrow> int \<Rightarrow> user_row list \<Rightarrow> world \<Rightarrow> outcome" where
  "reminder_scan_loop tr now [] w = (None, w)"
| "reminder_scan_loop tr now (u # us) w =
     and_then (reminder_scan_user tr now u w) (reminder_scan_loop tr now us)"

definition reminder_scan_job :: "transport \<Rightarrow> int \<Rightarrow> world \<Rightarrow> outcome" where
  "reminder_scan_job tr now w = reminder_scan_loop tr now (db_all_users (db w)) w"

section \<open>The handlers\<close>

definition start :: "transport \<Rightarrow> file_content \<Rightarrow> int \<Rightarrow> update \<Rightarrow> world \<Rightarrow> outcome" where
  "start tr prompts_file now upd w =
     (case effective_user upd of
        None \<Rightarrow> (Some AttributeError, w)
      | Some uid \<Rightarrow>
          (let w1 = w\<lparr>db := db_ensure_user uid (db w)\<rparr>
           in case load_prompts prompts_file of
                Inl e \<Rightarrow> (Some e, w1)
              | Inr prompts \<Rightarrow>
                  (case db_get_user uid (db w1) of
                     None \<Rightarrow> (Some TypeError, w1)
                   | Some u \<Rightarrow>
                       if last_prompt_ts u = None
                       then and_then (reply_text tr upd (L ''reply.sub'' []) w1)
                              (\<lambda>w2. and_then (send_prompt_to_user tr uid (prompts ! 0) w2)
                                 (\<lambda>w3. (None, w3\<lparr>db := db_mark_prompt_sent uid 0 (Aware now) (db w3)\<rparr>)))
                       else reply_text tr upd (L ''reply.err.alreadysub'' []) w1)))"

definition stop :: "transport \<Rightarrow> update \<Rightarrow> world \<Rightarrow> outcome" where
  "stop tr upd w =
     (case effective_user upd of
        None \<Rightarrow> (Some AttributeError, w)
      | Some uid \<Rightarrow>
          reply_text tr upd (L ''reply.unsub'' []) (w\<lparr>db := db_delete_user uid (db w)\<rparr>))"

definition on_text :: "transport \<Rightarrow> update \<Rightarrow> world \<Rightarrow> outcome" where
  "on_text tr upd w =
     (case message_chat upd of
        None \<Rightarrow> (None, w)
      | Some chat \<Rightarrow>
          (case effective_user upd of
             None \<Rightarrow> (None, w)
           | Some uid \<Rightarrow>
               (let w1 = w\<lparr>db := db_ensure_user uid (db w)\<rparr>
                in case db_get_user uid (db w1) of
                     None \<Rightarrow> (Some TypeError, w1)
                   | Some u \<Rightarrow>
                       if last_prompt_ts u = None
                       then reply_text tr upd (L ''reply.err.noinitprompt'' []) w1
                       else if answered u = 1
                       then reply_text tr upd (L ''reply.complete.received'' []) w1
                       else reply_text tr upd (L ''reply.complete.received'' [])
                              (w1\<lparr>db := db_mark_answered uid (db w1)\<rparr>))))"

section \<open>Start-up\<close>

text \<open>
  What \<open>main\<close> finds when the process starts, and what it has set up when it reaches
  \<open>run_polling\<close>: the table, the loaded locales, the command and message handlers and the
  scheduled jobs. The reminder scan is not scheduled.
\<close>

record env =
  dotenv_loaded :: bool
  telegram_bot_token :: "string option"
  locale_dir :: "(string \<times> file_content) list option"
  prompts_path :: file_content
  users_table :: "user_row list option"

record app =
  app_db :: "user_row list"
  app_locales :: "(string \<times> json) list"
  handlers :: "string list"
  jobs :: "string list"

definition main :: "env \<Rightarrow> error + app" where
  "main e =
     (if \<not> dotenv_loaded e then Inl FileNotFoundError
      else case telegram_bot_token e of
             None \<Rightarrow> Inl RuntimeError
           | Some token \<Rightarrow>
               if token = [] then Inl RuntimeError
               else (case load_locales (locale_dir e) of
                       Inl err \<Rightarrow> Inl err
                     | Inr locs \<Rightarrow>
                         Inr \<lparr>app_db = db_init (users_table e), app_locales = locs,
                              handlers = [''start'', ''stop'', ''text''],
                              jobs = [''daily_9_msk'']\<rparr>))"

section \<open>A scenario: advancing and answering, round after round\<close>

text \<open>
  One round is the daily job's step for the stored row of one user, followed by a text
  of that user; \<open>sent_times\<close> gives the time of each round's daily job.
\<close>

fun advance_and_answer ::
    "transport \<Rightarrow> string list \<Rightarrow> update \<Rightarrow> int \<Rightarrow> int list \<Rightarrow> world \<Rightarrow> outcome" where
  "advance_and_answer tr prompts upd uid [] w = (None, w)"
| "advance_and_answer tr prompts upd uid (t # sent_times) w =
     (case db_get_user uid (db w) of
        None \<Rightarrow> (None, w)
      | Some u \<Rightarrow>
          and_then (maybe_send_next_prompt tr u prompts (Aware t) w)
            (\<lambda>w1. and_then (on_text tr upd w1)
               (advance_and_answer tr prompts upd uid sent_times)))"

section \<open>The running bot\<close>

text \<open>
  What happens to the bot once it polls: a command, a text, a run of the daily job, a run
  of the reminder scan. The framework logs what a handler or a job raises and goes on, so
  each event takes the state to the state its handler or job reached. Events are taken
  one at a time, each handler or job running to its end before the next begins.
  \<open>run\<close> plays a list of events, \<open>fresh_world\<close> is the state over a new database
  file.
\<close>

datatype event =
    OnStart file_content int update
  | OnStop update
  | OnText update
  | DailyJob file_content int
  | ReminderScanJob int

fun handle :: "transport \<Rightarrow> event \<Rightarrow> world \<Rightarrow> world" where
  "handle tr (OnStart prompts_file now upd) w = snd (start tr prompts_file now upd w)"
| "handle tr (OnStop upd) w = snd (stop tr upd w)"
| "handle tr (OnText upd) w = snd (on_text tr upd w)"
| "handle tr (DailyJob prompts_file now) w = snd (daily_9_msk_job tr prompts_file now w)"
| "handle tr (ReminderScanJob now) w = snd (reminder_scan_job tr now w)"

definition run :: "transport \<Rightarrow> event list \<Rightarrow> world \<Rightarrow> world" where
  "run tr events w = foldl (\<lambda>w' e. handle tr e w') w events"

definition fresh_world :: world where
  "fresh_world = \<lparr>db = db_init None, outbox = []\<rparr>"

text \<open>
  What the schema and the handlers keep true of the table: the ids are distinct and
  ascending, and a row without \<open>last_prompt_ts\<close> has both flags at 0.
\<close>

definition rows_ok :: "user_row list \<Rightarrow> bool" where
  "rows_ok rows \<longleftrightarrow>
     distinct (map user_id rows) \<and> sorted (map user_id rows) \<and>
     list_all (\<lambda>r. last_prompt_ts r = None \<longrightarrow> answered r = 0 \<and> reminder_sent r = 0) rows"

section \<open>The reminder decision in the words of the specification\<close>

text \<open>
  \<open>decideReminder\<close> is written from the specification (4.3), not from the code, to be
  compared with what \<open>reminder_scan_job\<close> does: no action if the time of the last prompt
  is absent, or the prompt is answered, or a reminder was sent; a reminder if the delay has
  passed since the time of the last prompt; no action otherwise, and no action for a
  stored time that cannot be read. \<open>applyReminder\<close> sets the reminder flag.
\<close>

datatype action = NoAction | SendReminder

definition decideReminder :: "user_row \<Rightarrow> int \<Rightarrow> int \<Rightarrow> action" where
  "decideReminder record now reminderDelay =
     (case last_prompt_ts record of
        None \<Rightarrow> NoAction
      | Some ts \<Rightarrow>
          if answered record = 1 \<or> reminder_sent record = 1 then NoAction
          else (case ts of
                  BadText s \<Rightarrow> NoAction
                | IsoText d \<Rightarrow>
                    if now - to_msk d \<ge> reminderDelay then SendReminder else NoAction))"

definition applyReminder :: "user_row \<Rightarrow> user_row" where
  "applyReminder record = record\<lparr>reminder_sent := 1\<rparr>"

text \<open>
  The reminder cycle of the specification (4.5) computes \<open>decideReminder\<close> for every
  record, with the delay of 24 hours, and applies it.
\<close>

definition reminded :: "int \<Rightarrow> user_row \<Rightarrow> user_row" where
  "reminded now record =
     (if decideReminder record now hours24 = SendReminder then applyReminder record else record)"

section \<open>Concrete tables and catalogs used in the examples\<close>

definition two_answered :: world where
  "two_answered =
     \<lparr>db = [\<lparr>user_id = 1, prompt_index = 0, last_prompt_ts = Some (IsoText (Aware 0)),
              answered = 1, reminder_sent = 0\<rparr>,
             \<lparr>user_id = 2, prompt_index = 0, last_prompt_ts = Some (IsoText (Aware 0)),
              answered = 1, reminder_sent = 0\<rparr>],
       outbox = []\<rparr>"

definition catalog2 :: file_content where
  "catalog2 = Json (JArray [JString ''P0'', JString ''P1''])"

definition row_answered :: "int \<Rightarrow> int \<Rightarrow> user_row" where
  "row_answered uid idx =
     \<lparr>user_id = uid, prompt_index = idx, last_prompt_ts = Some (IsoText (Aware 0)),
      answered = 1, reminder_sent = 0\<rparr>"

definition row_stale :: user_row where
  "row_stale = row_answered 1 5"

definition catalog3 :: "string list" where
  "catalog3 = [''P0'', ''P1'', ''P2'']"

definition user1 :: update where
  "user1 = \<lparr>message_chat = Some 1, effective_user = Some 1\<rparr>"

definition row_pending :: "int \<Rightarrow> user_row" where
  "row_pending uid =
     \<lparr>user_id = uid, prompt_index = 0, last_prompt_ts = Some (IsoText (Aware 0)),
      answered = 0, reminder_sent = 0\<rparr>"

definition row_reminded :: "int \<Rightarrow> user_row" where
  "row_reminded uid =
     \<lparr>user_id = uid, prompt_index = 0, last_prompt_ts = Some (IsoText (Aware 0)),
      answered = 0, reminder_sent = 1\<rparr>"

definition row_corrupt :: "int \<Rightarrow> user_row" where
  "row_corrupt uid =
     \<lparr>user_id = uid, prompt_index = 0, last_prompt_ts = Some (BadText ''yesterday''),
      answered = 0, reminder_sent = 0\<rparr>"

definition row_ack :: "int \<Rightarrow> user_row" where
  "row_ack uid =
     \<lparr>user_id = uid, prompt_index = 0, last_prompt_ts = Some (IsoText (Aware 0)),
      answered = 1, reminder_sent = 0\<rparr>"

definition env_no_catalog :: env where
  "env_no_catalog =
     \<lparr>dotenv_loaded = True, telegram_bot_token = Some ''token'',
      locale_dir = Some [(''ru_RU.json'', Json (JObject []))],
      prompts_path = NoFile, users_table = None\<rparr>"

definition row_naive :: "int \<Rightarrow> user_row" where
  "row_naive uid =
     \<lparr>user_id = uid, prompt_index = 0, last_prompt_ts = Some (IsoText (Naive 0)),
      answered = 0, reminder_sent = 0\<rparr>"

definition scan_table :: "user_row list" where
  "scan_table =
     [row_naive 1, row_pending 2, row_reminded 3, row_ack 4, default_row 5, row_corrupt 6]"

definition text_then_start :: "event list" where
  "text_then_start =
     [OnText \<lparr>message_chat = Some 7, effective_user = Some 7\<rparr>,
      OnStart catalog2 50 \<lparr>message_chat = Some 3, effective_user = Some 3\<rparr>]"

section \<open>Basic facts about sequencing, sending and the store\<close>

lemma and_then_None [simp]: "and_then (None, w) k = k w"
  by (simp add: and_then_def)

lemma and_then_Some [simp]: "and_then (Some e, w) k = (Some e, w)"
  by (simp add: and_then_def)

lemma send_message_reliable [simp]: "send_message reliable m w = (None, w\<lparr>outbox := outbox w @ [m]\<rparr>)"
  by (simp add: send_message_def reliable_def)

lemma db_get_user_Some: "db_get_user uid rows = Some u \<Longrightarrow> user_id u = uid \<and> u \<in> set rows"
  unfolding db_get_user_def by (induction rows) (auto split: if_splits)

lemma db_get_user_None: "db_get_user uid rows = None \<longleftrightarrow> uid \<notin> set (map user_id rows)"
  unfolding db_get_user_def by (induction rows) auto

lemma db_get_user_update_where:
  assumes "\<And>r. user_id (f r) = user_id r"
  shows "db_get_user uid (update_where uid f rows) = map_option f (db_get_user uid rows)"
  unfolding db_get_user_def update_where_def using assms by (induction rows) auto

lemma db_get_user_update_where_other:
  assumes "\<And>r. user_id (f r) = user_id r" and "uid \<noteq> other"
  shows "db_get_user uid (update_where other f rows) = db_get_user uid rows"
  unfolding db_get_user_def update_where_def using assms by (induction rows) auto

lemma db_ensure_user_present: "db_get_user uid rows = Some u \<Longrightarrow> db_ensure_user uid rows = rows"
  using db_get_user_None [of uid rows] by (simp add: db_ensure_user_def)

lemma db_ensure_user_absent:
  "db_get_user uid rows = None \<Longrightarrow>
   db_ensure_user uid rows = insort_key user_id (default_row uid) rows"
  using db_get_user_None [of uid rows] by (simp add: db_ensure_user_def)

lemma db_get_user_insort:
  "db_get_user uid rows = None \<Longrightarrow> user_id x = uid \<Longrightarrow>
   db_get_user uid (insort_key user_id x rows) = Some x"
  unfolding db_get_user_def by (induction rows) (auto split: if_splits)

lemma db_get_user_append_absent:
  "db_get_user uid rows = None \<Longrightarrow> db_get_user uid (rows @ rest) = db_get_user uid rest"
  unfolding db_get_user_def by (induction rows) (auto split: if_splits)

lemma db_get_user_ensure_absent:
  "db_get_user uid rows = None \<Longrightarrow> db_get_user uid (db_ensure_user uid rows) = Some (default_row uid)"
  by (simp add: db_ensure_user_absent db_get_user_insort default_row_def)

lemma db_get_user_delete: "db_get_user uid (db_delete_user uid rows) = None"
  unfolding db_get_user_def db_delete_user_def by (induction rows) auto

lemmas store_defs = default_row_def db_init_def db_ensure_user_def db_get_user_def update_where_def
  db_mark_prompt_sent_def db_mark_answered_def db_mark_reminder_sent_def db_all_users_def
  db_delete_user_def isoformat_def

lemmas send_defs = send_message_def reply_text_def send_prompt_to_user_def
  send_reminder_to_user_def L_def reliable_def unreachable_def and_then_def

lemmas handler_defs = maybe_send_next_prompt_def daily_9_msk_job_def reminder_scan_user_def
  reminder_scan_job_def start_def stop_def on_text_def load_prompts_def

lemma start_bootstrap:
  assumes "effective_user upd = Some uid" and "message_chat upd = Some chat"
    and "load_prompts fs = Inr prompts"
    and "db_get_user uid (db_ensure_user uid (db w)) = Some u" and "last_prompt_ts u = None"
    and "tr (outbox w) (chat, L ''reply.sub'' [])"
  shows "start tr fs now upd w =
     (if tr (outbox w @ [(chat, L ''reply.sub'' [])]) (uid, L ''message.sendprompt'' [prompts ! 0])
      then (None, \<lparr>db = db_mark_prompt_sent uid 0 (Aware now) (db_ensure_user uid (db w)),
                   outbox = outbox w @ [(chat, L ''reply.sub'' []),
                                        (uid, L ''message.sendprompt'' [prompts ! 0])]\<rparr>)
      else (Some TelegramError, \<lparr>db = db_ensure_user uid (db w),
                   outbox = outbox w @ [(chat, L ''reply.sub'' [])]\<rparr>))"
  using assms
  by (simp add: start_def reply_text_def send_prompt_to_user_def send_message_def)

lemma db_get_user_mark_prompt_sent:
  "db_get_user uid (db_mark_prompt_sent uid idx t rows) =
     map_option (\<lambda>r. r\<lparr>prompt_index := idx, last_prompt_ts := Some (isoformat t),
                        answered := 0, reminder_sent := 0\<rparr>) (db_get_user uid rows)"
  unfolding db_mark_prompt_sent_def by (rule db_get_user_update_where) simp

lemma db_get_user_mark_answered:
  "db_get_user uid (db_mark_answered uid rows) =
     map_option (\<lambda>r. r\<lparr>answered := 1\<rparr>) (db_get_user uid rows)"
  unfolding db_mark_answered_def by (rule db_get_user_update_where) simp

lemma db_get_user_mark_reminder_sent:
  "db_get_user uid (db_mark_reminder_sent uid rows) =
     map_option (\<lambda>r. r\<lparr>reminder_sent := 1\<rparr>) (db_get_user uid rows)"
  unfolding db_mark_reminder_sent_def by (rule db_get_user_update_where) simp

lemma maybe_send_unanswered:
  "answered r \<noteq> 1 \<Longrightarrow>
   maybe_send_next_prompt tr r prompts t w = send_message tr (user_id r, L ''message.reminder'' []) w"
  by (simp add: maybe_send_next_prompt_def)

lemma maybe_send_answered:
  assumes "answered r = 1" and "prompts \<noteq> []"
  shows "maybe_send_next_prompt tr r prompts t w =
    (if tr (outbox w) (user_id r, L ''message.sendprompt''
           [prompts ! nat ((prompt_index r + 1) mod int (length prompts))])
     then (None, \<lparr>db = db_mark_prompt_sent (user_id r)
                         ((prompt_index r + 1) mod int (length prompts)) t (db w),
                  outbox = outbox w @ [(user_id r, L ''message.sendprompt''
                     [prompts ! nat ((prompt_index r + 1) mod int (length prompts))])]\<rparr>)
     else (Some TelegramError, w))"
  using assms
  by (simp add: maybe_send_next_prompt_def send_prompt_to_user_def send_message_def Let_def)

lemma maybe_send_error: "maybe_send_next_prompt tr u ps t w = (Some e, w') \<Longrightarrow> w' = w"
  by (auto simp: maybe_send_next_prompt_def send_prompt_to_user_def send_message_def Let_def
      split: if_splits)

lemma daily_loop_append:
  "daily_loop tr ps t (us1 @ us2) w = and_then (daily_loop tr ps t us1 w) (daily_loop tr ps t us2)"
proof (induction us1 arbitrary: w)
  case Nil
  show ?case by simp
next
  case (Cons u us1)
  show ?case
  proof (cases "maybe_send_next_prompt tr u ps t w")
    case (Pair r w1)
    then show ?thesis using Cons.IH by (cases r) simp_all
  qed
qed

lemma maybe_send_reliable_ok: "ps \<noteq> [] \<Longrightarrow> fst (maybe_send_next_prompt reliable u ps t w) = None"
  by (simp add: maybe_send_next_prompt_def send_prompt_to_user_def Let_def)

lemma daily_loop_reliable:
  "ps \<noteq> [] \<Longrightarrow>
   daily_loop reliable ps t us w =
     (None, foldl (\<lambda>w u. snd (maybe_send_next_prompt reliable u ps t w)) w us)"
proof (induction us arbitrary: w)
  case Nil
  show ?case by simp
next
  case (Cons u us)
  obtain w1 where "maybe_send_next_prompt reliable u ps t w = (None, w1)"
    using maybe_send_reliable_ok [OF Cons.prems, of u t w]
    by (cases "maybe_send_next_prompt reliable u ps t w") simp
  then show ?case using Cons by simp
qed

lemma start_error_db:
  assumes "start tr fs now upd w = (Some e, w')" and "effective_user upd = Some uid"
  shows "db w' = db_ensure_user uid (db w)"
  using assms
  by (auto simp: start_def reply_text_def send_prompt_to_user_def send_message_def and_then_def
      Let_def split: sum.splits option.splits if_splits)

lemma on_text_unanswered:
  assumes "effective_user upd = Some uid" and "message_chat upd = Some chat"
    and "db_get_user uid (db w) = Some u" and "last_prompt_ts u \<noteq> None" and "answered u \<noteq> 1"
  shows "on_text tr upd w =
    send_message tr (chat, L ''reply.complete.received'' []) (w\<lparr>db := db_mark_answered uid (db w)\<rparr>)"
  using assms by (auto simp: on_text_def reply_text_def db_ensure_user_present)

lemma on_text_answered:
  assumes "effective_user upd = Some uid" and "message_chat upd = Some chat"
    and "db_get_user uid (db w) = Some u" and "last_prompt_ts u \<noteq> None" and "answered u = 1"
  shows "on_text tr upd w = send_message tr (chat, L ''reply.complete.received'' []) w"
  using assms by (auto simp: on_text_def reply_text_def db_ensure_user_present)

lemma on_text_no_prompt:
  assumes "effective_user upd = Some uid" and "message_chat upd = Some chat"
    and "db_get_user uid (db_ensure_user uid (db w)) = Some u" and "last_prompt_ts u = None"
  shows "on_text tr upd w =
    send_message tr (chat, L ''reply.err.noinitprompt'' []) (w\<lparr>db := db_ensure_user uid (db w)\<rparr>)"
  using assms by (simp add: on_text_def reply_text_def)

lemma advance_and_answer_index:
  assumes "ps \<noteq> []" and "effective_user upd = Some uid" and "message_chat upd = Some chat"
  shows "db_get_user uid (db w) = Some u \<Longrightarrow> answered u = 1 \<Longrightarrow>
    \<exists>w' u'. advance_and_answer reliable ps upd uid ts w = (None, w') \<and>
       db_get_user uid (db w') = Some u' \<and> answered u' = 1 \<and>
       prompt_index u' =
         (if ts = [] then prompt_index u
          else (prompt_index u + int (length ts)) mod int (length ps))"
proof (induction ts arbitrary: w u)
  case Nil
  then show ?case by simp
next
  case (Cons t ts)
  let ?n = "(prompt_index u + 1) mod int (length ps)"
  let ?u1 = "u\<lparr>prompt_index := ?n, last_prompt_ts := Some (isoformat (Aware t)),
                answered := 0, reminder_sent := 0\<rparr>"
  let ?w1 = "\<lparr>db = db_mark_prompt_sent uid ?n (Aware t) (db w),
             outbox = outbox w @ [(uid, L ''message.sendprompt'' [ps ! nat ?n])]\<rparr>"
  have uid: "user_id u = uid" using Cons.prems(1) db_get_user_Some by blast
  have step: "maybe_send_next_prompt reliable u ps (Aware t) w = (None, ?w1)"
    using Cons.prems(2) assms(1) uid by (simp add: maybe_send_answered reliable_def)
  have g1: "db_get_user uid (db ?w1) = Some ?u1"
    using Cons.prems(1) by (simp add: db_get_user_mark_prompt_sent)
  let ?w2 = "?w1\<lparr>db := db_mark_answered uid (db ?w1),
                   outbox := outbox ?w1 @ [(chat, L ''reply.complete.received'' [])]\<rparr>"
  have reply: "on_text reliable upd ?w1 = (None, ?w2)"
    using on_text_unanswered [OF assms(2) assms(3) g1] by simp
  have g2: "db_get_user uid (db ?w2) = Some (?u1\<lparr>answered := 1\<rparr>)"
    using g1 by (simp add: db_get_user_mark_answered)
  have "answered (?u1\<lparr>answered := 1\<rparr>) = 1" by simp
  from Cons.IH [OF g2 this]
  obtain w' u' where r: "advance_and_answer reliable ps upd uid ts ?w2 = (None, w')"
    and g: "db_get_user uid (db w') = Some u'" and a: "answered u' = 1"
    and i: "prompt_index u' = (if ts = [] then ?n else (?n + int (length ts)) mod int (length ps))"
    by auto
  have "advance_and_answer reliable ps upd uid (t # ts) w = (None, w')"
    using Cons.prems(1) step reply r by simp
  moreover have "prompt_index u' = (prompt_index u + int (length (t # ts))) mod int (length ps)"
  proof (cases "ts = []")
    case True
    with i show ?thesis by simp
  next
    case False
    have "(?n + int (length ts)) mod int (length ps)
        = (prompt_index u + 1 + int (length ts)) mod int (length ps)"
      by (rule mod_add_left_eq)
    with False i show ?thesis by (simp add: add.assoc)
  qed
  ultimately show ?case using g a by auto
qed

lemma reminder_scan_user_skip:
  "reminder_sent u = 1 \<or> answered u = 1 \<or> last_prompt_ts u = None \<or>
   (\<exists>d. last_prompt_ts u = Some (IsoText d) \<and> now - to_msk d < hours24) \<or>
   (\<exists>s. last_prompt_ts u = Some (BadText s))
   \<Longrightarrow> reminder_scan_user tr now u w = (None, w)"
  by (auto simp: reminder_scan_user_def split: option.splits)

lemma reminder_scan_user_due:
  assumes "reminder_sent u \<noteq> 1" and "answered u \<noteq> 1" and "last_prompt_ts u = Some (IsoText d)"
    and "hours24 \<le> now - to_msk d"
  shows "reminder_scan_user tr now u w =
    (if tr (outbox w) (user_id u, L ''message.reminder'' [])
     then (None, \<lparr>db = db_mark_reminder_sent (user_id u) (db w),
                  outbox = outbox w @ [(user_id u, L ''message.reminder'' [])]\<rparr>)
     else (Some TelegramError, w))"
  using assms
  by (simp add: reminder_scan_user_def send_reminder_to_user_def send_message_def)

lemma reminder_scan_user_cases:
  "reminder_scan_user tr now u w = (None, w) \<or>
   reminder_scan_user tr now u w = (Some TelegramError, w) \<or>
   reminder_scan_user tr now u w =
     (None, \<lparr>db = db_mark_reminder_sent (user_id u) (db w),
             outbox = outbox w @ [(user_id u, L ''message.reminder'' [])]\<rparr>)"
  by (auto simp: reminder_scan_user_def send_reminder_to_user_def send_message_def
      split: option.splits sum.splits)

lemma reminder_scan_loop_append:
  "reminder_scan_loop tr now (us1 @ us2) w =
     and_then (reminder_scan_loop tr now us1 w) (reminder_scan_loop tr now us2)"
proof (induction us1 arbitrary: w)
  case Nil
  show ?case by simp
next
  case (Cons u us1)
  show ?case
  proof (cases "reminder_scan_user tr now u w")
    case (Pair r w1)
    then show ?thesis using Cons.IH by (cases r) simp_all
  qed
qed

lemma db_get_user_mark_reminder_other:
  "uid \<noteq> other \<Longrightarrow> db_get_user uid (db_mark_reminder_sent other rows) = db_get_user uid rows"
  unfolding db_mark_reminder_sent_def by (rule db_get_user_update_where_other) simp_all

lemma reminder_scan_loop_other_rows:
  "uid \<notin> set (map user_id us) \<Longrightarrow>
   db_get_user uid (db (snd (reminder_scan_loop tr now us w))) = db_get_user uid (db w)"
proof (induction us arbitrary: w)
  case Nil
  show ?case by simp
next
  case (Cons u us)
  then have ne: "uid \<noteq> user_id u" and rest: "uid \<notin> set (map user_id us)" by auto
  from reminder_scan_user_cases [of tr now u w] show ?case
  proof (elim disjE)
    assume "reminder_scan_user tr now u w = (None, w)"
    then show ?thesis using Cons.IH [OF rest] by simp
  next
    assume "reminder_scan_user tr now u w = (Some TelegramError, w)"
    then show ?thesis by simp
  next
    assume "reminder_scan_user tr now u w =
     (None, \<lparr>db = db_mark_reminder_sent (user_id u) (db w),
             outbox = outbox w @ [(user_id u, L ''message.reminder'' [])]\<rparr>)"
    then show ?thesis
      using Cons.IH [OF rest] ne by (simp add: db_get_user_mark_reminder_other)
  qed
qed

lemma reminder_scan_loop_error:
  "reminder_scan_loop tr now us w = (Some e, w') \<Longrightarrow> e = TelegramError"
proof (induction us arbitrary: w)
  case Nil
  then show ?case by simp
next
  case (Cons u us)
  from reminder_scan_user_cases [of tr now u w] show ?case
  proof (elim disjE)
    assume "reminder_scan_user tr now u w = (None, w)"
    then show ?thesis using Cons by simp
  next
    assume "reminder_scan_user tr now u w = (Some TelegramError, w)"
    then show ?thesis using Cons.prems by simp
  next
    assume "reminder_scan_user tr now u w =
     (None, \<lparr>db = db_mark_reminder_sent (user_id u) (db w),
             outbox = outbox w @ [(user_id u, L ''message.reminder'' [])]\<rparr>)"
    then show ?thesis using Cons by simp
  qed
qed

lemma reminder_scan_loop_reliable: "fst (reminder_scan_loop reliable now us w) = None"
proof (induction us arbitrary: w)
  case Nil
  show ?case by simp
next
  case (Cons u us)
  from reminder_scan_user_cases [of reliable now u w] show ?case
  proof (elim disjE)
    assume "reminder_scan_user reliable now u w = (None, w)"
    then show ?thesis using Cons by simp
  next
    assume "reminder_scan_user reliable now u w = (Some TelegramError, w)"
    then have False
      by (auto simp: reminder_scan_user_def send_reminder_to_user_def
          split: option.splits sum.splits if_splits)
    then show ?thesis ..
  next
    assume "reminder_scan_user reliable now u w =
     (None, \<lparr>db = db_mark_reminder_sent (user_id u) (db w),
             outbox = outbox w @ [(user_id u, L ''message.reminder'' [])]\<rparr>)"
    then show ?thesis using Cons by simp
  qed
qed

lemma on_text_db:
  assumes "effective_user upd = Some uid" and "message_chat upd = Some chat"
    and "db_get_user uid (db_ensure_user uid (db w)) = Some u"
  shows "db (snd (on_text tr upd w)) =
    (if last_prompt_ts u = None \<or> answered u = 1 then db_ensure_user uid (db w)
     else db_mark_answered uid (db_ensure_user uid (db w)))"
  using assms by (auto simp: on_text_def reply_text_def send_message_def Let_def)

lemma on_text_delivered:
  assumes "effective_user upd = Some uid" and "message_chat upd = Some chat"
    and "db_get_user uid (db_ensure_user uid (db w)) = Some u"
    and "tr (outbox w) (chat, L (if last_prompt_ts u = None then ''reply.err.noinitprompt''
                                  else ''reply.complete.received'') [])"
  shows "on_text tr upd w =
    (None, \<lparr>db = (if last_prompt_ts u = None \<or> answered u = 1 then db_ensure_user uid (db w)
                   else db_mark_answered uid (db_ensure_user uid (db w))),
            outbox = outbox w @ [(chat, L (if last_prompt_ts u = None then ''reply.err.noinitprompt''
                                    else ''reply.complete.received'') [])]\<rparr>)"
  using assms by (auto simp: on_text_def reply_text_def send_message_def Let_def)

lemma update_where_absent:
  "uid \<notin> set (map user_id rows) \<Longrightarrow> update_where uid f rows = rows"
  unfolding update_where_def by (induction rows) auto

lemma delete_absent: "uid \<notin> set (map user_id (db_delete_user uid rows))"
  by (auto simp: db_delete_user_def)

lemma db_delete_user_idem: "db_delete_user uid (db_delete_user uid rows) = db_delete_user uid rows"
  by (simp add: db_delete_user_def)

lemma stop_db: "effective_user upd = Some uid \<Longrightarrow> db (snd (stop tr upd w)) = db_delete_user uid (db w)"
  by (auto simp: stop_def reply_text_def send_message_def split: option.splits)

lemma ensure_after_delete:
  "db_ensure_user uid (db_delete_user uid rows) =
     insort_key user_id (default_row uid) (db_delete_user uid rows)"
  using delete_absent [of uid rows] by (simp add: db_ensure_user_def)

lemma update_where_insort:
  "uid \<notin> set (map user_id rows) \<Longrightarrow> user_id x = uid \<Longrightarrow> user_id (f x) = uid \<Longrightarrow>
   update_where uid f (insort_key user_id x rows) = insort_key user_id (f x) rows"
proof (induction rows)
  case Nil
  then show ?case by (simp add: update_where_def)
next
  case (Cons a rows)
  then have "update_where uid f rows = rows"
    by (intro update_where_absent) simp
  with Cons show ?case by (auto simp: update_where_def)
qed

lemma mark_prompt_after_ensure_delete:
  "db_mark_prompt_sent uid idx t (insort_key user_id (default_row uid) (db_delete_user uid rows)) =
     insort_key user_id
       \<lparr>user_id = uid, prompt_index = idx, last_prompt_ts = Some (isoformat t),
        answered = 0, reminder_sent = 0\<rparr> (db_delete_user uid rows)"
  unfolding db_mark_prompt_sent_def using delete_absent [of uid rows]
  by (subst update_where_insort) (simp_all add: default_row_def)

lemma start_subscribed:
  assumes "effective_user upd = Some uid" and "db_get_user uid (db w) = Some u"
    and "last_prompt_ts u \<noteq> None"
  shows "start tr fs now upd w =
    (case load_prompts fs of
       Inl e \<Rightarrow> (Some e, w)
     | Inr ps \<Rightarrow> reply_text tr upd (L ''reply.err.alreadysub'' []) w)"
  using assms
  by (auto simp: start_def db_ensure_user_present split: sum.splits)

lemma strings_back: "list_all is_str xs \<Longrightarrow> map (JString \<circ> str_of) xs = xs"
proof (induction xs)
  case Nil
  show ?case by simp
next
  case (Cons x xs)
  then show ?case by (cases x) simp_all
qed

lemma load_prompts_Inr:
  "load_prompts fs = Inr ps \<longleftrightarrow> ps \<noteq> [] \<and> fs = Json (JArray (map JString ps))"
proof
  assume "load_prompts fs = Inr ps"
  then show "ps \<noteq> [] \<and> fs = Json (JArray (map JString ps))"
    by (auto simp: load_prompts_def strings_back split: file_content.splits json.splits if_splits)
next
  assume "ps \<noteq> [] \<and> fs = Json (JArray (map JString ps))"
  then show "load_prompts fs = Inr ps"
    by (simp add: load_prompts_def list_all_iff comp_def)
qed

lemma decideReminder_fires:
  "decideReminder r now delay = SendReminder \<longleftrightarrow>
     reminder_sent r \<noteq> 1 \<and> answered r \<noteq> 1 \<and>
     (\<exists>d. last_prompt_ts r = Some (IsoText d) \<and> delay \<le> now - to_msk d)"
  by (auto simp: decideReminder_def split: option.splits ts_text.splits)

lemma decideReminder_reminded: "decideReminder (reminded now r) now2 hours24 = SendReminder \<Longrightarrow>
  decideReminder r now hours24 = NoAction"
  by (cases "decideReminder r now hours24")
     (auto simp: reminded_def applyReminder_def decideReminder_fires)

lemma reminded_twice: "decideReminder (reminded now r) now hours24 = NoAction"
  by (cases "decideReminder r now hours24")
     (auto simp: reminded_def applyReminder_def decideReminder_def
       split: option.splits ts_text.splits)

lemma user_id_reminded [simp]: "user_id (reminded now r) = user_id r"
  by (simp add: reminded_def applyReminder_def)

lemma reminder_scan_user_decide:
  "reminder_scan_user tr now u w =
     (if decideReminder u now hours24 = SendReminder
      then and_then (send_reminder_to_user tr (user_id u) w)
             (\<lambda>w'. (None, w'\<lparr>db := db_mark_reminder_sent (user_id u) (db w')\<rparr>))
      else (None, w))"
  by (auto simp: reminder_scan_user_def decideReminder_def split: option.splits ts_text.splits)

lemma update_where_single:
  assumes "uid \<notin> set (map user_id pre)" and "uid \<notin> set (map user_id post)" and "user_id u = uid"
  shows "update_where uid f (pre @ u # post) = pre @ f u # post"
proof -
  have "update_where uid f pre = pre" and "update_where uid f post = post"
    using assms by (simp_all add: update_where_absent)
  then show ?thesis using assms(3) by (simp add: update_where_def)
qed

lemma reminder_scan_loop_reminded:
  "distinct (map user_id (pre @ us)) \<Longrightarrow> db w = map (reminded now) pre @ us \<Longrightarrow>
   reminder_scan_loop reliable now us w =
     (None, \<lparr>db = map (reminded now) (pre @ us),
             outbox = outbox w @ map (\<lambda>r. (user_id r, L ''message.reminder'' []))
                          (filter (\<lambda>r. decideReminder r now hours24 = SendReminder) us)\<rparr>)"
proof (induction us arbitrary: pre w)
  case Nil
  then show ?case by simp
next
  case (Cons u us)
  have d: "distinct (map user_id ((pre @ [u]) @ us))" using Cons.prems(1) by simp
  show ?case
  proof (cases "decideReminder u now hours24 = SendReminder")
    case True
    let ?w1 = "\<lparr>db = db_mark_reminder_sent (user_id u) (db w),
               outbox = outbox w @ [(user_id u, L ''message.reminder'' [])]\<rparr>"
    have step: "reminder_scan_user reliable now u w = (None, ?w1)"
      by (simp add: reminder_scan_user_decide True send_reminder_to_user_def)
    have "db_mark_reminder_sent (user_id u) (map (reminded now) pre @ u # us) =
        map (reminded now) pre @ applyReminder u # us"
      unfolding db_mark_reminder_sent_def applyReminder_def
      using Cons.prems(1) by (intro update_where_single) (auto simp: comp_def)
    moreover have "reminded now u = applyReminder u"
      using True by (simp add: reminded_def)
    ultimately have "db ?w1 = map (reminded now) (pre @ [u]) @ us"
      using Cons.prems(2) by simp
    from Cons.IH [OF d this] show ?thesis
      using True by (simp add: step)
  next
    case False
    have step: "reminder_scan_user reliable now u w = (None, w)"
      by (simp add: reminder_scan_user_decide False)
    have "reminded now u = u"
      using False by (simp add: reminded_def)
    then have "db w = map (reminded now) (pre @ [u]) @ us"
      using Cons.prems(2) by simp
    from Cons.IH [OF d this] show ?thesis
      using False by (simp add: step)
  qed
qed

lemma reminder_scan_job_reminded:
  assumes "distinct (map user_id (db w))"
  shows "reminder_scan_job reliable now w =
     (None, \<lparr>db = map (reminded now) (db w),
             outbox = outbox w @ map (\<lambda>r. (user_id r, L ''message.reminder'' []))
                          (filter (\<lambda>r. decideReminder r now hours24 = SendReminder) (db w))\<rparr>)"
  using reminder_scan_loop_reminded [of "[]" "db w" w now] assms
  by (simp add: reminder_scan_job_def db_all_users_def)

lemma reminder_scan_job_again:
  assumes "distinct (map user_id (db w))"
  shows "reminder_scan_job reliable now (snd (reminder_scan_job reliable now w)) =
     (None, snd (reminder_scan_job reliable now w))"
proof -
  let ?w1 = "snd (reminder_scan_job reliable now w)"
  have w1: "?w1 = \<lparr>db = map (reminded now) (db w),
             outbox = outbox w @ map (\<lambda>r. (user_id r, L ''message.reminder'' []))
                          (filter (\<lambda>r. decideReminder r now hours24 = SendReminder) (db w))\<rparr>"
    by (simp add: reminder_scan_job_reminded [OF assms])
  have d: "distinct (map user_id (db ?w1))"
    using assms by (simp add: w1 comp_def)
  have "reminded now (reminded now r) = reminded now r" for r
    using reminded_twice [of now r] by (simp add: reminded_def [of now "reminded now r"])
  then have same: "map (reminded now) (db ?w1) = db ?w1"
    by (simp add: w1)
  have none: "filter (\<lambda>r. decideReminder r now hours24 = SendReminder) (db ?w1) = []"
    by (simp add: w1 filter_empty_conv reminded_twice)
  show ?thesis
    by (subst reminder_scan_job_reminded [OF d]) (simp add: same none)
qed

lemma rows_ok_empty: "rows_ok []"
  by (simp add: rows_ok_def)

lemma rows_ok_ensure: "rows_ok rows \<Longrightarrow> rows_ok (db_ensure_user uid rows)"
  by (auto simp: rows_ok_def db_ensure_user_def distinct_insort_key sorted_insort_key
      list_all_iff set_insort_key default_row_def)

lemma map_user_id_update_where:
  "(\<And>r. user_id (f r) = user_id r) \<Longrightarrow> map user_id (update_where uid f rows) = map user_id rows"
  by (simp add: update_where_def comp_def)

lemma rows_ok_update_where:
  assumes "rows_ok rows" and "\<And>r. user_id (f r) = user_id r"
    and "\<And>r. r \<in> set rows \<Longrightarrow> user_id r = uid \<Longrightarrow>
           last_prompt_ts (f r) = None \<longrightarrow> answered (f r) = 0 \<and> reminder_sent (f r) = 0"
  shows "rows_ok (update_where uid f rows)"
proof -
  have "map user_id (update_where uid f rows) = map user_id rows"
    using assms(2) by (rule map_user_id_update_where)
  moreover have "list_all (\<lambda>r. last_prompt_ts r = None \<longrightarrow> answered r = 0 \<and> reminder_sent r = 0)
      (update_where uid f rows)"
    using assms(1,3) by (auto simp: rows_ok_def list_all_iff update_where_def)
  ultimately show ?thesis using assms(1) by (simp add: rows_ok_def)
qed

lemma rows_ok_mark_prompt_sent: "rows_ok rows \<Longrightarrow> rows_ok (db_mark_prompt_sent uid idx t rows)"
  unfolding db_mark_prompt_sent_def by (rule rows_ok_update_where) simp_all

lemma rows_ok_mark_answered:
  "rows_ok rows \<Longrightarrow> (\<And>r. r \<in> set rows \<Longrightarrow> user_id r = uid \<Longrightarrow> last_prompt_ts r \<noteq> None) \<Longrightarrow>
   rows_ok (db_mark_answered uid rows)"
  unfolding db_mark_answered_def by (rule rows_ok_update_where) auto

lemma rows_ok_mark_reminder_sent:
  "rows_ok rows \<Longrightarrow> (\<And>r. r \<in> set rows \<Longrightarrow> user_id r = uid \<Longrightarrow> last_prompt_ts r \<noteq> None) \<Longrightarrow>
   rows_ok (db_mark_reminder_sent uid rows)"
  unfolding db_mark_reminder_sent_def by (rule rows_ok_update_where) auto

lemma rows_ok_delete: "rows_ok rows \<Longrightarrow> rows_ok (db_delete_user uid rows)"
  by (auto simp: rows_ok_def db_delete_user_def distinct_map_filter sorted_filter list_all_iff)

lemma rows_ok_unique:
  assumes "rows_ok rows" and "r \<in> set rows" and "u \<in> set rows" and "user_id r = user_id u"
  shows "r = u"
proof -
  from assms(1) have "inj_on user_id (set rows)"
    by (simp add: rows_ok_def distinct_map)
  with assms(2-4) show ?thesis by (auto dest: inj_onD)
qed

lemma rows_ok_start: "rows_ok (db w) \<Longrightarrow> rows_ok (db (snd (start tr fs now upd w)))"
  by (auto simp: start_def reply_text_def send_prompt_to_user_def send_message_def and_then_def
      Let_def rows_ok_ensure rows_ok_mark_prompt_sent split: option.splits sum.splits)

lemma rows_ok_stop: "rows_ok (db w) \<Longrightarrow> rows_ok (db (snd (stop tr upd w)))"
  by (auto simp: stop_def reply_text_def send_message_def rows_ok_delete split: option.splits)

lemma rows_ok_on_text:
  assumes "rows_ok (db w)"
  shows "rows_ok (db (snd (on_text tr upd w)))"
proof (cases "message_chat upd")
  case None
  then show ?thesis using assms by (simp add: on_text_def)
next
  case (Some chat)
  show ?thesis
  proof (cases "effective_user upd")
    case None
    then show ?thesis using assms Some by (simp add: on_text_def)
  next
    case eu: (Some uid)
    let ?rows = "db_ensure_user uid (db w)"
    have ok: "rows_ok ?rows" using assms by (rule rows_ok_ensure)
    show ?thesis
    proof (cases "db_get_user uid ?rows")
      case None
      then show ?thesis using ok Some eu by (simp add: on_text_def)
    next
      case g: (Some u)
      have dbeq: "db (snd (on_text tr upd w)) =
        (if last_prompt_ts u = None \<or> answered u = 1 then ?rows
         else db_mark_answered uid ?rows)"
        by (rule on_text_db [OF eu Some g])
      show ?thesis
      proof (cases "last_prompt_ts u = None \<or> answered u = 1")
        case True
        then show ?thesis using ok by (simp add: dbeq)
      next
        case False
        have "rows_ok (db_mark_answered uid ?rows)"
        proof (rule rows_ok_mark_answered [OF ok])
          fix r assume r: "r \<in> set ?rows" "user_id r = uid"
          from g have "u \<in> set ?rows" "user_id u = uid"
            using db_get_user_Some by blast+
          with r ok have "r = u" by (intro rows_ok_unique [of ?rows]) simp_all
          with False show "last_prompt_ts r \<noteq> None" by simp
        qed
        moreover from False have "db (snd (on_text tr upd w)) = db_mark_answered uid ?rows"
          by (auto simp: dbeq)
        ultimately show ?thesis by simp
      qed
    qed
  qed
qed

lemma rows_ok_maybe_send:
  "rows_ok (db w) \<Longrightarrow> rows_ok (db (snd (maybe_send_next_prompt tr u ps t w)))"
  by (auto simp: maybe_send_next_prompt_def send_prompt_to_user_def send_message_def and_then_def
      Let_def rows_ok_mark_prompt_sent)

lemma rows_ok_daily_loop:
  "rows_ok (db w) \<Longrightarrow> rows_ok (db (snd (daily_loop tr ps t us w)))"
proof (induction us arbitrary: w)
  case Nil
  then show ?case by simp
next
  case (Cons u us)
  show ?case
  proof (cases "maybe_send_next_prompt tr u ps t w")
    case (Pair r w1)
    then have "rows_ok (db w1)"
      using rows_ok_maybe_send [OF Cons.prems, of tr u ps t] by simp
    then show ?thesis using Pair Cons.IH by (cases r) simp_all
  qed
qed

lemma rows_ok_daily: "rows_ok (db w) \<Longrightarrow> rows_ok (db (snd (daily_9_msk_job tr fs now w)))"
  by (auto simp: daily_9_msk_job_def rows_ok_daily_loop split: sum.splits)

lemma reminder_scan_user_changes:
  "reminder_scan_user tr now u w = (r, w') \<Longrightarrow>
   w' = w \<or> (last_prompt_ts u \<noteq> None \<and> db w' = db_mark_reminder_sent (user_id u) (db w))"
  by (auto simp: reminder_scan_user_def send_reminder_to_user_def send_message_def and_then_def
      split: option.splits sum.splits if_splits)

lemma mark_reminder_sent_row:
  "r' \<in> set (db_mark_reminder_sent uid rows) \<Longrightarrow>
   \<exists>r \<in> set rows. user_id r' = user_id r \<and> last_prompt_ts r' = last_prompt_ts r"
  by (auto simp: db_mark_reminder_sent_def update_where_def split: if_splits)

lemma rows_ok_scan_loop:
  "rows_ok (db w) \<Longrightarrow>
   (\<And>u r. u \<in> set us \<Longrightarrow> last_prompt_ts u \<noteq> None \<Longrightarrow> r \<in> set (db w) \<Longrightarrow>
      user_id r = user_id u \<Longrightarrow> last_prompt_ts r \<noteq> None) \<Longrightarrow>
   rows_ok (db (snd (reminder_scan_loop tr now us w)))"
proof (induction us arbitrary: w)
  case Nil
  then show ?case by simp
next
  case (Cons u us)
  show ?case
  proof (cases "reminder_scan_user tr now u w")
    case (Pair res w1)
    from reminder_scan_user_changes [OF Pair]
    have ok1: "rows_ok (db w1)"
    proof
      assume "w1 = w"
      then show ?thesis using Cons.prems(1) by simp
    next
      assume c: "last_prompt_ts u \<noteq> None \<and> db w1 = db_mark_reminder_sent (user_id u) (db w)"
      have "rows_ok (db_mark_reminder_sent (user_id u) (db w))"
      proof (rule rows_ok_mark_reminder_sent [OF Cons.prems(1)])
        fix r assume "r \<in> set (db w)" "user_id r = user_id u"
        then show "last_prompt_ts r \<noteq> None"
          using Cons.prems(2) [of u r] c by simp
      qed
      with c show ?thesis by simp
    qed
    have agree: "last_prompt_ts r \<noteq> None"
      if v: "v \<in> set us" "last_prompt_ts v \<noteq> None" "r \<in> set (db w1)" "user_id r = user_id v"
      for v r
    proof -
      from reminder_scan_user_changes [OF Pair]
      obtain r0 where r0: "r0 \<in> set (db w)" "user_id r = user_id r0"
        "last_prompt_ts r = last_prompt_ts r0"
        using v(3) mark_reminder_sent_row [of r "user_id u" "db w"] by auto
      have vin: "v \<in> set (u # us)" using v(1) by simp
      have same: "user_id r0 = user_id v" using r0(2) v(4) by simp
      have "last_prompt_ts r0 \<noteq> None"
        by (rule Cons.prems(2) [OF vin v(2) r0(1) same])
      with r0(3) show ?thesis by simp
    qed
    show ?thesis
    proof (cases res)
      case None
      then show ?thesis using Pair Cons.IH [OF ok1 agree] by simp
    next
      case (Some e)
      then show ?thesis using Pair ok1 by simp
    qed
  qed
qed

lemma rows_ok_scan: "rows_ok (db w) \<Longrightarrow> rows_ok (db (snd (reminder_scan_job tr now w)))"
  unfolding reminder_scan_job_def db_all_users_def
proof (rule rows_ok_scan_loop)
  fix u r
  assume "rows_ok (db w)" "u \<in> set (db w)" "last_prompt_ts u \<noteq> None" "r \<in> set (db w)"
    "user_id r = user_id u"
  then show "last_prompt_ts r \<noteq> None"
    using rows_ok_unique [of "db w" r u] by simp
qed

lemma rows_ok_handle: "rows_ok (db w) \<Longrightarrow> rows_ok (db (handle tr e w))"
  by (cases e) (simp_all add: rows_ok_start rows_ok_stop rows_ok_on_text rows_ok_daily rows_ok_scan)

lemma rows_ok_run: "rows_ok (db w) \<Longrightarrow> rows_ok (db (run tr events w))"
  unfolding run_def by (induction events arbitrary: w) (simp_all add: rows_ok_handle)

lemma rows_ok_fresh_run: "rows_ok (db (run tr events fresh_world))"
  by (rule rows_ok_run) (simp add: fresh_world_def db_init_def rows_ok_empty)

lemma never_prompted_flags:
  "r \<in> set (db (run tr events fresh_world)) \<Longrightarrow> last_prompt_ts r = None \<Longrightarrow>
   answered r = 0 \<and> reminder_sent r = 0"
  using rows_ok_fresh_run [of tr events] by (auto simp: rows_ok_def list_all_iff)

section \<open>C1: the first prompt\<close>

text \<open>
  Claim C1 says that for a record whose \<open>last_prompt_ts\<close> is absent the advance, in the
  daily job as well as at \<open>/start\<close>, sends the first prompt of the catalog and records
  it. The daily job never looks at \<open>last_prompt_ts\<close>: a user who has never been sent a
  prompt (here one whose row has the column defaults) gets the reminder text, and the
  row stays as it was.
\<close>

theorem C1_daily_no_bootstrap_counterexample:
  "last_prompt_ts (default_row 7) = None \<and>
   daily_9_msk_job reliable (Json (JArray [JString ''P0'', JString ''P1''])) 0
       \<lparr>db = [default_row 7], outbox = []\<rparr>
     = (None, \<lparr>db = [default_row 7], outbox = [(7, L ''message.reminder'' [])]\<rparr>)"
  by (simp add: handler_defs send_defs store_defs)


text \<open>
  C1, as the code has it: at \<open>/start\<close>, a user whose \<open>last_prompt_ts\<close> is absent is
  sent \<open>prompts[0]\<close> after the subscription reply, and the row is then recorded with
  index 0, the time of sending and both flags cleared (the catalog loads and both
  messages are delivered). The daily job looks at \<open>answered\<close> alone: a row whose
  \<open>answered\<close> is not 1 is sent no prompt and the table is left as it was. In every table
  the bot reaches from a new database, whatever commands, texts, daily jobs and reminder
  scans happen and whatever is delivered, the ids are distinct and ascending and a row
  without \<open>last_prompt_ts\<close> has \<open>answered = 0\<close> and \<open>reminder_sent = 0\<close>; so the
  daily job sends no prompt to any row of such a table that was never sent one, and
  records nothing for it.
\<close>

theorem C1_bootstrap_at_subscribe_only:
  "(effective_user upd = Some uid \<and> message_chat upd = Some chat \<and>
    load_prompts fs = Inr prompts \<and>
    db_get_user uid (db_ensure_user uid (db w)) = Some u \<and> last_prompt_ts u = None \<and>
    tr (outbox w) (chat, L ''reply.sub'' []) \<and>
    tr (outbox w @ [(chat, L ''reply.sub'' [])]) (uid, L ''message.sendprompt'' [prompts ! 0])
    \<longrightarrow> start tr fs now upd w =
          (None, \<lparr>db = db_mark_prompt_sent uid 0 (Aware now) (db_ensure_user uid (db w)),
                  outbox = outbox w @ [(chat, L ''reply.sub'' []),
                                       (uid, L ''message.sendprompt'' [prompts ! 0])]\<rparr>) \<and>
        db_get_user uid (db (snd (start tr fs now upd w))) =
          Some (u\<lparr>prompt_index := 0, last_prompt_ts := Some (isoformat (Aware now)),
                  answered := 0, reminder_sent := 0\<rparr>))
   \<and> (answered r \<noteq> 1 \<longrightarrow>
        db (snd (maybe_send_next_prompt tr r ps t wd)) = db wd \<and>
        (\<forall>m. m \<in> set (outbox (snd (maybe_send_next_prompt tr r ps t wd))) \<longrightarrow>
               m \<in> set (outbox wd) \<or> fst (snd m) \<noteq> ''message.sendprompt''))
   \<and> rows_ok (db (run tr0 events fresh_world))
   \<and> (r0 \<in> set (db (run tr0 events fresh_world)) \<and> last_prompt_ts r0 = None \<longrightarrow>
        answered r0 = 0 \<and> reminder_sent r0 = 0 \<and>
        db (snd (maybe_send_next_prompt tr r0 ps t wd)) = db wd \<and>
        (\<forall>m. m \<in> set (outbox (snd (maybe_send_next_prompt tr r0 ps t wd))) \<longrightarrow>
               m \<in> set (outbox wd) \<or> fst (snd m) \<noteq> ''message.sendprompt''))"
proof (intro conjI impI)
  assume h: "effective_user upd = Some uid \<and> message_chat upd = Some chat \<and>
    load_prompts fs = Inr prompts \<and>
    db_get_user uid (db_ensure_user uid (db w)) = Some u \<and> last_prompt_ts u = None \<and>
    tr (outbox w) (chat, L ''reply.sub'' []) \<and>
    tr (outbox w @ [(chat, L ''reply.sub'' [])]) (uid, L ''message.sendprompt'' [prompts ! 0])"
  then show st: "start tr fs now upd w =
          (None, \<lparr>db = db_mark_prompt_sent uid 0 (Aware now) (db_ensure_user uid (db w)),
                  outbox = outbox w @ [(chat, L ''reply.sub'' []),
                                       (uid, L ''message.sendprompt'' [prompts ! 0])]\<rparr>)"
    by (simp add: start_bootstrap)
  from h show "db_get_user uid (db (snd (start tr fs now upd w))) =
          Some (u\<lparr>prompt_index := 0, last_prompt_ts := Some (isoformat (Aware now)),
                  answered := 0, reminder_sent := 0\<rparr>)"
    by (simp add: st db_get_user_mark_prompt_sent)
next
  assume a: "answered r \<noteq> 1"
  show "db (snd (maybe_send_next_prompt tr r ps t wd)) = db wd"
    by (simp add: maybe_send_unanswered [OF a] send_message_def)
  show "\<forall>m. m \<in> set (outbox (snd (maybe_send_next_prompt tr r ps t wd))) \<longrightarrow>
               m \<in> set (outbox wd) \<or> fst (snd m) \<noteq> ''message.sendprompt''"
    by (auto simp: maybe_send_unanswered [OF a] send_message_def L_def)
next
  show "rows_ok (db (run tr0 events fresh_world))"
    by (rule rows_ok_fresh_run)
next
  assume h: "r0 \<in> set (db (run tr0 events fresh_world)) \<and> last_prompt_ts r0 = None"
  then have f: "answered r0 = 0 \<and> reminder_sent r0 = 0"
    using never_prompted_flags [of r0 tr0 events] by blast
  then show "answered r0 = 0" and "reminder_sent r0 = 0" by simp_all
  from f have a: "answered r0 \<noteq> 1" by simp
  show "db (snd (maybe_send_next_prompt tr r0 ps t wd)) = db wd"
    by (simp add: maybe_send_unanswered [OF a] send_message_def)
  show "\<forall>m. m \<in> set (outbox (snd (maybe_send_next_prompt tr r0 ps t wd))) \<longrightarrow>
               m \<in> set (outbox wd) \<or> fst (snd m) \<noteq> ''message.sendprompt''"
    by (auto simp: maybe_send_unanswered [OF a] send_message_def L_def)
qed

theorem C1_bootstrap_at_subscribe_only_witness:
  "start reliable (Json (JArray [JString ''P0'', JString ''P1''])) 50
       \<lparr>message_chat = Some 7, effective_user = Some 7\<rparr> \<lparr>db = [], outbox = []\<rparr>
     = (None, \<lparr>db = [\<lparr>user_id = 7, prompt_index = 0, last_prompt_ts = Some (IsoText (Aware 50)),
                       answered = 0, reminder_sent = 0\<rparr>],
               outbox = [(7, ''reply.sub'', []), (7, ''message.sendprompt'', [''P0''])]\<rparr>)
   \<and> db (snd (maybe_send_next_prompt reliable (default_row 7) [''P0'', ''P1''] (Aware 60)
               \<lparr>db = [default_row 7], outbox = []\<rparr>)) = [default_row 7]
   \<and> db (run reliable text_then_start fresh_world)
     = [\<lparr>user_id = 3, prompt_index = 0, last_prompt_ts = Some (IsoText (Aware 50)),
         answered = 0, reminder_sent = 0\<rparr>, default_row 7]
   \<and> db (snd (maybe_send_next_prompt reliable (default_row 7) [''P0'', ''P1''] (Aware 60)
               (run reliable text_then_start fresh_world)))
     = db (run reliable text_then_start fresh_world)"
proof -
  have h: "effective_user \<lparr>message_chat = Some 7, effective_user = Some 7\<rparr> = Some (7::int) \<and>
    message_chat \<lparr>message_chat = Some 7, effective_user = Some 7\<rparr> = Some (7::int) \<and>
    load_prompts (Json (JArray [JString ''P0'', JString ''P1''])) = Inr [''P0'', ''P1''] \<and>
    db_get_user 7 (db_ensure_user 7 (db \<lparr>db = [], outbox = []\<rparr>)) = Some (default_row 7) \<and>
    last_prompt_ts (default_row 7) = None \<and>
    reliable (outbox \<lparr>db = [], outbox = []\<rparr>) (7, L ''reply.sub'' []) \<and>
    reliable (outbox \<lparr>db = [], outbox = []\<rparr> @ [(7, L ''reply.sub'' [])])
       (7, L ''message.sendprompt'' [[''P0'', ''P1''] ! 0])"
    by (simp add: store_defs load_prompts_def reliable_def)
  have a: "answered (default_row 7) \<noteq> 1"
    by (simp add: default_row_def)
  have run: "db (run reliable text_then_start fresh_world)
     = [\<lparr>user_id = 3, prompt_index = 0, last_prompt_ts = Some (IsoText (Aware 50)),
         answered = 0, reminder_sent = 0\<rparr>, default_row 7]"
    by (simp add: run_def text_then_start_def fresh_world_def catalog2_def handler_defs send_defs
        store_defs)
  have r0: "default_row 7 \<in> set (db (run reliable text_then_start fresh_world)) \<and>
    last_prompt_ts (default_row 7) = None"
    by (simp add: run) (simp add: default_row_def)
  note inst = C1_bootstrap_at_subscribe_only
    [where upd = "\<lparr>message_chat = Some 7, effective_user = Some 7\<rparr>" and uid = 7 and chat = 7
       and fs = "Json (JArray [JString ''P0'', JString ''P1''])" and prompts = "[''P0'', ''P1'']"
       and w = "\<lparr>db = [], outbox = []\<rparr>" and u = "default_row 7" and tr = reliable
       and now = 50 and r = "default_row 7" and ps = "[''P0'', ''P1'']" and t = "Aware 60"
       and ?tr0.0 = reliable and events = text_then_start and ?r0.0 = "default_row 7"]
  have first: "start reliable (Json (JArray [JString ''P0'', JString ''P1''])) 50
       \<lparr>message_chat = Some 7, effective_user = Some 7\<rparr> \<lparr>db = [], outbox = []\<rparr>
     = (None, \<lparr>db = [\<lparr>user_id = 7, prompt_index = 0, last_prompt_ts = Some (IsoText (Aware 50)),
                       answered = 0, reminder_sent = 0\<rparr>],
               outbox = [(7, ''reply.sub'', []), (7, ''message.sendprompt'', [''P0''])]\<rparr>)"
    using inst [where wd = "\<lparr>db = [default_row 7], outbox = []\<rparr>"] h
    by (simp add: store_defs L_def)
  have second: "db (snd (maybe_send_next_prompt reliable (default_row 7) [''P0'', ''P1''] (Aware 60)
               \<lparr>db = [default_row 7], outbox = []\<rparr>)) = [default_row 7]"
    using inst [where wd = "\<lparr>db = [default_row 7], outbox = []\<rparr>"] a by simp
  have third: "db (snd (maybe_send_next_prompt reliable (default_row 7) [''P0'', ''P1''] (Aware 60)
               (run reliable text_then_start fresh_world)))
     = db (run reliable text_then_start fresh_world)"
    using inst [where wd = "run reliable text_then_start fresh_world"] r0 by blast
  from first second run third show ?thesis by simp
qed

section \<open>C2: a failure in the daily job\<close>

text \<open>
  Claim C2 says that a failure while the daily job processes one user does not keep the
  other users of the batch from being processed. The loop of \<open>daily_9_msk_job\<close> has no
  handler around its body: with two users who have both answered and a transport that
  cannot reach the first of them (but would deliver to the second), the job ends with
  the error and the second user has been sent nothing and keeps the old row.
\<close>

theorem C2_daily_failure_stops_batch_counterexample:
  "unreachable 1 [] (2, L ''message.sendprompt'' [''P1'']) \<and>
   daily_9_msk_job (unreachable 1) (Json (JArray [JString ''P0'', JString ''P1''])) 100 two_answered
     = (Some TelegramError, two_answered)"
  by (simp add: handler_defs send_defs store_defs two_answered_def)

text \<open>
  C2, as the code has it: when the step of one user raises, the daily job ends there with
  that error; the users before it in the batch have been processed, the failing user and
  all users after it have not. When every message is delivered the job processes every
  user of the batch, in order.
\<close>

theorem C2_daily_failure_aborts_rest:
  "(load_prompts fs = Inr ps \<and> db w = us1 @ u # us2 \<and>
    daily_loop tr ps (Aware now) us1 w = (None, w1) \<and>
    maybe_send_next_prompt tr u ps (Aware now) w1 = (Some e, w2)
    \<longrightarrow> daily_9_msk_job tr fs now w = (Some e, w1))
   \<and> (load_prompts fs = Inr ps \<longrightarrow>
        daily_9_msk_job reliable fs now w =
          (None, foldl (\<lambda>w u. snd (maybe_send_next_prompt reliable u ps (Aware now) w)) w (db w)))"
proof (intro conjI impI)
  assume h: "load_prompts fs = Inr ps \<and> db w = us1 @ u # us2 \<and>
    daily_loop tr ps (Aware now) us1 w = (None, w1) \<and>
    maybe_send_next_prompt tr u ps (Aware now) w1 = (Some e, w2)"
  then have "w2 = w1" using maybe_send_error by blast
  with h show "daily_9_msk_job tr fs now w = (Some e, w1)"
    by (simp add: daily_9_msk_job_def db_all_users_def daily_loop_append)
next
  assume l: "load_prompts fs = Inr ps"
  then have "ps \<noteq> []"
    by (auto simp: load_prompts_def split: file_content.splits json.splits if_splits)
  with l show "daily_9_msk_job reliable fs now w =
          (None, foldl (\<lambda>w u. snd (maybe_send_next_prompt reliable u ps (Aware now) w)) w (db w))"
    by (simp add: daily_9_msk_job_def db_all_users_def daily_loop_reliable)
qed

theorem C2_daily_failure_aborts_rest_witness:
  "daily_9_msk_job (unreachable 2) catalog2 100
       \<lparr>db = [row_answered 1 0, row_answered 2 0, row_answered 3 0], outbox = []\<rparr>
     = (Some TelegramError,
        \<lparr>db = [\<lparr>user_id = 1, prompt_index = 1, last_prompt_ts = Some (IsoText (Aware 100)),
                 answered = 0, reminder_sent = 0\<rparr>, row_answered 2 0, row_answered 3 0],
          outbox = [(1, ''message.sendprompt'', [''P1''])]\<rparr>)
   \<and> fst (daily_9_msk_job reliable catalog2 100
       \<lparr>db = [row_answered 1 0, row_answered 2 0, row_answered 3 0], outbox = []\<rparr>) = None"
proof -
  let ?w = "\<lparr>db = [row_answered 1 0, row_answered 2 0, row_answered 3 0], outbox = []\<rparr>"
  let ?w1 = "\<lparr>db = [\<lparr>user_id = 1, prompt_index = 1, last_prompt_ts = Some (IsoText (Aware 100)),
                 answered = 0, reminder_sent = 0\<rparr>, row_answered 2 0, row_answered 3 0],
          outbox = [(1, ''message.sendprompt'', [''P1''])]\<rparr>"
  have h: "load_prompts catalog2 = Inr [''P0'', ''P1''] \<and>
    db ?w = [row_answered 1 0] @ row_answered 2 0 # [row_answered 3 0] \<and>
    daily_loop (unreachable 2) [''P0'', ''P1''] (Aware 100) [row_answered 1 0] ?w = (None, ?w1) \<and>
    maybe_send_next_prompt (unreachable 2) (row_answered 2 0) [''P0'', ''P1''] (Aware 100) ?w1
      = (Some TelegramError, ?w1)"
    by (simp add: handler_defs send_defs store_defs catalog2_def row_answered_def)
  have l: "load_prompts catalog2 = Inr [''P0'', ''P1'']"
    by (simp add: load_prompts_def catalog2_def)
  from C2_daily_failure_aborts_rest
    [where fs = catalog2 and ps = "[''P0'', ''P1'']" and w = ?w and ?us1.0 = "[row_answered 1 0]"
       and u = "row_answered 2 0" and ?us2.0 = "[row_answered 3 0]" and tr = "unreachable 2"
       and now = 100 and ?w1.0 = ?w1 and e = TelegramError and ?w2.0 = ?w1] h l
  show ?thesis by simp
qed

section \<open>C3: advancing a user who has answered\<close>

text \<open>
  Claim C3 says that for every record with \<open>answered\<close> set and every non-empty catalog of
  length N, N rounds of advancing and answering bring \<open>prompt_index\<close> back to its original
  value. The catalog is read from its file at each run of the job, so a stored index can lie
  outside the catalog of the day: with a stored index of 5 and a catalog of three prompts,
  three rounds end at index 2.
\<close>

theorem C3_cycle_stale_index_counterexample:
  "prompt_index row_stale = 5 \<and> answered row_stale = 1 \<and> length catalog3 = 3 \<and>
   map_option prompt_index
     (db_get_user 1 (db (snd (advance_and_answer reliable catalog3 user1 1 [10, 20, 30]
        \<lparr>db = [row_stale], outbox = []\<rparr>)))) = Some 2"
  by (simp add: handler_defs send_defs store_defs row_stale_def row_answered_def catalog3_def user1_def)

text \<open>
  C3, as the code has it: for a row with \<open>answered = 1\<close> and a non-empty catalog of length
  N, the daily step sends the prompt at index \<open>(prompt_index + 1) mod N\<close>, which lies in
  the catalog, and when the message is delivered the stored row has that index, the time
  of sending, and both flags cleared. N rounds of advancing and answering, with every
  message delivered, end at \<open>prompt_index mod N\<close>; that is the original index whenever the
  original index lies in the catalog.
\<close>

theorem C3_advance_answered_wraps:
  "(answered u = 1 \<and> ps \<noteq> [] \<and> n = (prompt_index u + 1) mod int (length ps) \<and>
    tr (outbox w) (user_id u, L ''message.sendprompt'' [ps ! nat n])
    \<longrightarrow> 0 \<le> n \<and> n < int (length ps) \<and>
        maybe_send_next_prompt tr u ps t w =
          (None, \<lparr>db = db_mark_prompt_sent (user_id u) n t (db w),
                  outbox = outbox w @ [(user_id u, L ''message.sendprompt'' [ps ! nat n])]\<rparr>) \<and>
        (db_get_user (user_id u) (db w) = Some u \<longrightarrow>
           db_get_user (user_id u) (db (snd (maybe_send_next_prompt tr u ps t w))) =
             Some (u\<lparr>prompt_index := n, last_prompt_ts := Some (isoformat t),
                     answered := 0, reminder_sent := 0\<rparr>)))
   \<and> (answered r = 1 \<and> db_get_user uid (db wr) = Some r \<and> ps \<noteq> [] \<and>
      effective_user upd = Some uid \<and> message_chat upd = Some chat \<and> length ts = length ps
      \<longrightarrow> fst (advance_and_answer reliable ps upd uid ts wr) = None \<and>
          map_option prompt_index
            (db_get_user uid (db (snd (advance_and_answer reliable ps upd uid ts wr)))) =
              Some (prompt_index r mod int (length ps)) \<and>
          (0 \<le> prompt_index r \<and> prompt_index r < int (length ps) \<longrightarrow>
             map_option prompt_index
               (db_get_user uid (db (snd (advance_and_answer reliable ps upd uid ts wr)))) =
                 Some (prompt_index r)))"
proof (intro conjI impI)
  assume h: "answered u = 1 \<and> ps \<noteq> [] \<and> n = (prompt_index u + 1) mod int (length ps) \<and>
    tr (outbox w) (user_id u, L ''message.sendprompt'' [ps ! nat n])"
  then show "0 \<le> n" by simp
  from h show "n < int (length ps)" by simp
  from h show st: "maybe_send_next_prompt tr u ps t w =
          (None, \<lparr>db = db_mark_prompt_sent (user_id u) n t (db w),
                  outbox = outbox w @ [(user_id u, L ''message.sendprompt'' [ps ! nat n])]\<rparr>)"
    by (clarsimp simp: maybe_send_answered)
  assume "db_get_user (user_id u) (db w) = Some u"
  then show "db_get_user (user_id u) (db (snd (maybe_send_next_prompt tr u ps t w))) =
             Some (u\<lparr>prompt_index := n, last_prompt_ts := Some (isoformat t),
                     answered := 0, reminder_sent := 0\<rparr>)"
    by (simp add: st db_get_user_mark_prompt_sent)
next
  assume h: "answered r = 1 \<and> db_get_user uid (db wr) = Some r \<and> ps \<noteq> [] \<and>
      effective_user upd = Some uid \<and> message_chat upd = Some chat \<and> length ts = length ps"
  then have ts: "ts \<noteq> []" by auto
  from h advance_and_answer_index [of ps upd uid chat wr r ts]
  obtain w' u' where run: "advance_and_answer reliable ps upd uid ts wr = (None, w')"
    and g: "db_get_user uid (db w') = Some u'"
    and i: "prompt_index u' = (prompt_index r + int (length ts)) mod int (length ps)"
    using ts by auto
  from run show "fst (advance_and_answer reliable ps upd uid ts wr) = None" by simp
  from h i have i': "prompt_index u' = prompt_index r mod int (length ps)" by simp
  with run g show m: "map_option prompt_index
            (db_get_user uid (db (snd (advance_and_answer reliable ps upd uid ts wr)))) =
              Some (prompt_index r mod int (length ps))"
    by simp
  assume "0 \<le> prompt_index r \<and> prompt_index r < int (length ps)"
  with m show "map_option prompt_index
               (db_get_user uid (db (snd (advance_and_answer reliable ps upd uid ts wr)))) =
                 Some (prompt_index r)"
    by simp
qed

theorem C3_advance_answered_wraps_witness:
  "maybe_send_next_prompt reliable (row_answered 1 2) catalog3 (Aware 100)
       \<lparr>db = [row_answered 1 2], outbox = []\<rparr>
     = (None, \<lparr>db = [\<lparr>user_id = 1, prompt_index = 0, last_prompt_ts = Some (IsoText (Aware 100)),
                       answered = 0, reminder_sent = 0\<rparr>],
               outbox = [(1, ''message.sendprompt'', [''P0''])]\<rparr>)
   \<and> map_option prompt_index
        (db_get_user 1 (db (snd (advance_and_answer reliable catalog3 user1 1 [10, 20, 30]
           \<lparr>db = [row_answered 1 2], outbox = []\<rparr>)))) = Some 2"
proof -
  let ?w = "\<lparr>db = [row_answered 1 2], outbox = []\<rparr>"
  have h1: "answered (row_answered 1 2) = 1 \<and> catalog3 \<noteq> [] \<and>
    0 = (prompt_index (row_answered 1 2) + 1) mod int (length catalog3) \<and>
    reliable (outbox ?w) (user_id (row_answered 1 2), L ''message.sendprompt'' [catalog3 ! nat 0])"
    by (simp add: row_answered_def catalog3_def reliable_def)
  have h2: "db_get_user (user_id (row_answered 1 2)) (db ?w) = Some (row_answered 1 2)"
    by (simp add: row_answered_def db_get_user_def)
  have h3: "answered (row_answered 1 2) = 1 \<and> db_get_user 1 (db ?w) = Some (row_answered 1 2) \<and>
      catalog3 \<noteq> [] \<and> effective_user user1 = Some 1 \<and> message_chat user1 = Some 1 \<and>
      length [10, 20, 30 :: int] = length catalog3"
    by (simp add: row_answered_def catalog3_def user1_def db_get_user_def)
  have h4: "0 \<le> prompt_index (row_answered 1 2) \<and>
      prompt_index (row_answered 1 2) < int (length catalog3)"
    by (simp add: row_answered_def catalog3_def)
  from C3_advance_answered_wraps
    [where u = "row_answered 1 2" and ps = catalog3 and n = 0 and tr = reliable and w = ?w
       and t = "Aware 100" and r = "row_answered 1 2" and uid = 1 and wr = ?w and upd = user1
       and chat = 1 and ts = "[10, 20, 30]"] h1 h2 h3 h4
  show ?thesis
    by (simp add: store_defs L_def row_answered_def catalog3_def)
qed

section \<open>C4: a prompt that could not be sent\<close>

text \<open>
  C4: when sending the prompt fails, nothing is recorded. In the daily job the step of
  the user ends with the error and the state as it was; at \<open>/start\<close> the handler ends
  with the error after the subscription reply, the table is the one \<open>db_ensure_user\<close>
  left and the row of the user is the one the handler read. More generally, a step of
  the daily job that raises changes nothing, and a \<open>/start\<close> that raises has not
  marked any prompt as sent: \<open>db_mark_prompt_sent\<close> runs only after the send returned.
\<close>

theorem C4_failed_send_commits_nothing:
  "(answered u = 1 \<and> ps \<noteq> [] \<and>
    \<not> tr (outbox w) (user_id u, L ''message.sendprompt''
            [ps ! nat ((prompt_index u + 1) mod int (length ps))])
    \<longrightarrow> maybe_send_next_prompt tr u ps t w = (Some TelegramError, w))
   \<and> (effective_user upd = Some uid \<and> message_chat upd = Some chat \<and>
      load_prompts fs = Inr ps \<and>
      db_get_user uid (db_ensure_user uid (db ws)) = Some r \<and> last_prompt_ts r = None \<and>
      tr (outbox ws) (chat, L ''reply.sub'' []) \<and>
      \<not> tr (outbox ws @ [(chat, L ''reply.sub'' [])]) (uid, L ''message.sendprompt'' [ps ! 0])
      \<longrightarrow> start tr fs now upd ws =
            (Some TelegramError,
             \<lparr>db = db_ensure_user uid (db ws), outbox = outbox ws @ [(chat, L ''reply.sub'' [])]\<rparr>) \<and>
          db_get_user uid (db (snd (start tr fs now upd ws))) = Some r)
   \<and> (maybe_send_next_prompt tr u ps t w = (Some e, w') \<longrightarrow> w' = w)
   \<and> (start tr fs now upd ws = (Some e, ws') \<and> effective_user upd = Some uid
      \<longrightarrow> db ws' = db_ensure_user uid (db ws))"
proof (intro conjI impI)
  assume "answered u = 1 \<and> ps \<noteq> [] \<and>
    \<not> tr (outbox w) (user_id u, L ''message.sendprompt''
            [ps ! nat ((prompt_index u + 1) mod int (length ps))])"
  then show "maybe_send_next_prompt tr u ps t w = (Some TelegramError, w)"
    by (simp add: maybe_send_answered)
next
  assume h: "effective_user upd = Some uid \<and> message_chat upd = Some chat \<and>
      load_prompts fs = Inr ps \<and>
      db_get_user uid (db_ensure_user uid (db ws)) = Some r \<and> last_prompt_ts r = None \<and>
      tr (outbox ws) (chat, L ''reply.sub'' []) \<and>
      \<not> tr (outbox ws @ [(chat, L ''reply.sub'' [])]) (uid, L ''message.sendprompt'' [ps ! 0])"
  then show st: "start tr fs now upd ws =
            (Some TelegramError,
             \<lparr>db = db_ensure_user uid (db ws), outbox = outbox ws @ [(chat, L ''reply.sub'' [])]\<rparr>)"
    by (simp add: start_bootstrap)
  from h show "db_get_user uid (db (snd (start tr fs now upd ws))) = Some r"
    by (simp add: st)
next
  assume "maybe_send_next_prompt tr u ps t w = (Some e, w')"
  then show "w' = w" by (rule maybe_send_error)
next
  assume "start tr fs now upd ws = (Some e, ws') \<and> effective_user upd = Some uid"
  then show "db ws' = db_ensure_user uid (db ws)"
    using start_error_db by blast
qed

theorem C4_failed_send_commits_nothing_witness:
  "maybe_send_next_prompt (unreachable 2) (row_answered 2 0) [''P0'', ''P1''] (Aware 100)
       \<lparr>db = [row_answered 2 0], outbox = []\<rparr>
     = (Some TelegramError, \<lparr>db = [row_answered 2 0], outbox = []\<rparr>)
   \<and> start (unreachable 2) catalog2 100 \<lparr>message_chat = Some 9, effective_user = Some 2\<rparr>
       \<lparr>db = [], outbox = []\<rparr>
     = (Some TelegramError, \<lparr>db = [default_row 2], outbox = [(9, ''reply.sub'', [])]\<rparr>)"
proof -
  let ?w = "\<lparr>db = [row_answered 2 0], outbox = []\<rparr>"
  let ?ws = "\<lparr>db = [], outbox = []\<rparr>"
  let ?upd = "\<lparr>message_chat = Some 9, effective_user = Some 2\<rparr>"
  have h1: "answered (row_answered 2 0) = 1 \<and> [''P0'', ''P1''] \<noteq> [] \<and>
    \<not> unreachable 2 (outbox ?w) (user_id (row_answered 2 0), L ''message.sendprompt''
        [[''P0'', ''P1''] ! nat ((prompt_index (row_answered 2 0) + 1) mod int (length [''P0'', ''P1'']))])"
    by (simp add: row_answered_def unreachable_def)
  have h2: "effective_user ?upd = Some 2 \<and> message_chat ?upd = Some 9 \<and>
      load_prompts catalog2 = Inr [''P0'', ''P1''] \<and>
      db_get_user 2 (db_ensure_user 2 (db ?ws)) = Some (default_row 2) \<and>
      last_prompt_ts (default_row 2) = None \<and>
      unreachable 2 (outbox ?ws) (9, L ''reply.sub'' []) \<and>
      \<not> unreachable 2 (outbox ?ws @ [(9, L ''reply.sub'' [])])
           (2, L ''message.sendprompt'' [[''P0'', ''P1''] ! 0])"
    by (simp add: store_defs load_prompts_def catalog2_def unreachable_def)
  have h3: "maybe_send_next_prompt (unreachable 2) (row_answered 2 0) [''P0'', ''P1''] (Aware 100) ?w
      = (Some TelegramError, ?w)"
    by (simp add: handler_defs send_defs store_defs row_answered_def)
  have h4: "start (unreachable 2) catalog2 100 ?upd ?ws
      = (Some TelegramError, \<lparr>db = [default_row 2], outbox = [(9, ''reply.sub'', [])]\<rparr>)
      \<and> effective_user ?upd = Some 2"
    by (simp add: handler_defs send_defs store_defs catalog2_def)
  from C4_failed_send_commits_nothing
    [where u = "row_answered 2 0" and ps = "[''P0'', ''P1'']" and tr = "unreachable 2" and w = ?w
       and t = "Aware 100" and upd = ?upd and uid = 2 and chat = 9 and fs = catalog2
       and ws = ?ws and r = "default_row 2" and now = 100 and e = TelegramError and w' = ?w
       and ws' = "\<lparr>db = [default_row 2], outbox = [(9, ''reply.sub'', [])]\<rparr>"]
    h1 h2 h3 h4
  show ?thesis by (simp add: store_defs L_def)
qed

section \<open>C5: one reminder for each prompt\<close>

text \<open>
  C5: the reminder scan does nothing for a row (no message, no change of the table) when
  \<open>reminder_sent\<close> is 1, or \<open>answered\<close> is 1, or \<open>last_prompt_ts\<close> is absent, or
  less than 24 hours lie between the stored time and now. For a row with neither flag
  set and a stored time at least 24 hours back, it sends the reminder and, the message
  being delivered, sets \<open>reminder_sent\<close> in the stored row; for the row so marked a
  later scan, at any time, does nothing. This is so for the step of the scan on one row,
  and for \<open>reminder_scan_job\<close> on a whole table with distinct ids when every message is
  delivered: the job returns normally, the table afterwards is the old one with
  \<open>reminder_sent\<close> set in exactly the rows for which the decision of the specification
  is to remind, one reminder has gone to each of them, in the order of the table, and the
  same scan run again changes nothing and sends nothing.
\<close>

theorem C5_reminder_once_per_prompt:
  "(reminder_sent u0 = 1 \<or> answered u0 = 1 \<or> last_prompt_ts u0 = None \<or>
    (\<exists>d0. last_prompt_ts u0 = Some (IsoText d0) \<and> now0 - to_msk d0 < hours24)
    \<longrightarrow> reminder_scan_user tr now0 u0 w0 = (None, w0) \<and>
        decideReminder u0 now0 hours24 = NoAction \<and> reminded now0 u0 = u0)
   \<and> (reminder_sent u \<noteq> 1 \<and> answered u \<noteq> 1 \<and> last_prompt_ts u = Some (IsoText d) \<and>
      hours24 \<le> now - to_msk d \<longrightarrow>
        decideReminder u now hours24 = SendReminder \<and>
        reminded now u = u\<lparr>reminder_sent := 1\<rparr> \<and>
        decideReminder (reminded now u) now2 hours24 = NoAction \<and>
        (tr (outbox w) (user_id u, L ''message.reminder'' []) \<longrightarrow>
          reminder_scan_user tr now u w =
            (None, \<lparr>db = db_mark_reminder_sent (user_id u) (db w),
                    outbox = outbox w @ [(user_id u, L ''message.reminder'' [])]\<rparr>) \<and>
          (db_get_user (user_id u) (db w) = Some u \<longrightarrow>
             db_get_user (user_id u) (db (snd (reminder_scan_user tr now u w))) =
               Some (u\<lparr>reminder_sent := 1\<rparr>)) \<and>
          reminder_scan_user tr2 now2 (u\<lparr>reminder_sent := 1\<rparr>) w2 = (None, w2)))
   \<and> (distinct (map user_id (db wj)) \<longrightarrow>
        reminder_scan_job reliable nowj wj =
          (None, \<lparr>db = map (reminded nowj) (db wj),
                  outbox = outbox wj @
                    map (\<lambda>r. (user_id r, L ''message.reminder'' []))
                      (filter (\<lambda>r. decideReminder r nowj hours24 = SendReminder) (db wj))\<rparr>) \<and>
        reminder_scan_job reliable nowj (snd (reminder_scan_job reliable nowj wj)) =
          (None, snd (reminder_scan_job reliable nowj wj)))"
proof (intro conjI impI)
  assume h: "reminder_sent u0 = 1 \<or> answered u0 = 1 \<or> last_prompt_ts u0 = None \<or>
    (\<exists>d0. last_prompt_ts u0 = Some (IsoText d0) \<and> now0 - to_msk d0 < hours24)"
  then show "reminder_scan_user tr now0 u0 w0 = (None, w0)"
    using reminder_scan_user_skip [of u0 now0 tr w0] by blast
  from h have "decideReminder u0 now0 hours24 \<noteq> SendReminder"
    by (auto simp: decideReminder_fires)
  then show n: "decideReminder u0 now0 hours24 = NoAction"
    by (cases "decideReminder u0 now0 hours24") simp_all
  then show "reminded now0 u0 = u0"
    by (simp add: reminded_def)
next
  assume h: "reminder_sent u \<noteq> 1 \<and> answered u \<noteq> 1 \<and> last_prompt_ts u = Some (IsoText d) \<and>
      hours24 \<le> now - to_msk d"
  then show f: "decideReminder u now hours24 = SendReminder"
    by (simp add: decideReminder_fires)
  then show r: "reminded now u = u\<lparr>reminder_sent := 1\<rparr>"
    by (simp add: reminded_def applyReminder_def)
  have "decideReminder (reminded now u) now2 hours24 \<noteq> SendReminder"
    by (simp add: r decideReminder_fires)
  then show "decideReminder (reminded now u) now2 hours24 = NoAction"
    by (cases "decideReminder (reminded now u) now2 hours24") simp_all
  show "reminder_scan_user tr2 now2 (u\<lparr>reminder_sent := 1\<rparr>) w2 = (None, w2)"
    by (rule reminder_scan_user_skip) simp
  assume t: "tr (outbox w) (user_id u, L ''message.reminder'' [])"
  with h show st: "reminder_scan_user tr now u w =
            (None, \<lparr>db = db_mark_reminder_sent (user_id u) (db w),
                    outbox = outbox w @ [(user_id u, L ''message.reminder'' [])]\<rparr>)"
    by (simp add: reminder_scan_user_due)
  assume "db_get_user (user_id u) (db w) = Some u"
  then show "db_get_user (user_id u) (db (snd (reminder_scan_user tr now u w))) =
               Some (u\<lparr>reminder_sent := 1\<rparr>)"
    by (simp add: st db_get_user_mark_reminder_sent)
next
  assume d: "distinct (map user_id (db wj))"
  show "reminder_scan_job reliable nowj wj =
          (None, \<lparr>db = map (reminded nowj) (db wj),
                  outbox = outbox wj @
                    map (\<lambda>r. (user_id r, L ''message.reminder'' []))
                      (filter (\<lambda>r. decideReminder r nowj hours24 = SendReminder) (db wj))\<rparr>)"
    by (rule reminder_scan_job_reminded [OF d])
  show "reminder_scan_job reliable nowj (snd (reminder_scan_job reliable nowj wj)) =
          (None, snd (reminder_scan_job reliable nowj wj))"
    by (rule reminder_scan_job_again [OF d])
qed

theorem C5_reminder_once_per_prompt_witness:
  "reminder_scan_user reliable hours24 (row_reminded 3) \<lparr>db = [row_reminded 3], outbox = []\<rparr>
     = (None, \<lparr>db = [row_reminded 3], outbox = []\<rparr>)
   \<and> reminder_scan_user reliable hours24 (row_pending 3) \<lparr>db = [row_pending 3], outbox = []\<rparr>
     = (None, \<lparr>db = [row_reminded 3], outbox = [(3, ''message.reminder'', [])]\<rparr>)
   \<and> db_get_user 3 (db (snd (reminder_scan_user reliable hours24 (row_pending 3)
          \<lparr>db = [row_pending 3], outbox = []\<rparr>))) = Some (row_reminded 3)
   \<and> reminder_scan_job reliable 75600000000 \<lparr>db = scan_table, outbox = []\<rparr>
     = (None, \<lparr>db = [row_reminded 1\<lparr>last_prompt_ts := Some (IsoText (Naive 0))\<rparr>, row_pending 2,
                      row_reminded 3, row_ack 4, default_row 5, row_corrupt 6],
               outbox = [(1, ''message.reminder'', [])]\<rparr>)
   \<and> reminder_scan_job reliable 86400000000
        \<lparr>db = [row_reminded 1\<lparr>last_prompt_ts := Some (IsoText (Naive 0))\<rparr>, row_pending 2,
               row_reminded 3, row_ack 4, default_row 5, row_corrupt 6],
         outbox = [(1, ''message.reminder'', [])]\<rparr>
     = (None, \<lparr>db = [row_reminded 1\<lparr>last_prompt_ts := Some (IsoText (Naive 0))\<rparr>, row_reminded 2,
                      row_reminded 3, row_ack 4, default_row 5, row_corrupt 6],
               outbox = [(1, ''message.reminder'', []), (2, ''message.reminder'', [])]\<rparr>)
   \<and> reminder_scan_job reliable 86400000000
        \<lparr>db = [row_reminded 1\<lparr>last_prompt_ts := Some (IsoText (Naive 0))\<rparr>, row_reminded 2,
               row_reminded 3, row_ack 4, default_row 5, row_corrupt 6],
         outbox = [(1, ''message.reminder'', []), (2, ''message.reminder'', [])]\<rparr>
     = (None, \<lparr>db = [row_reminded 1\<lparr>last_prompt_ts := Some (IsoText (Naive 0))\<rparr>, row_reminded 2,
                      row_reminded 3, row_ack 4, default_row 5, row_corrupt 6],
               outbox = [(1, ''message.reminder'', []), (2, ''message.reminder'', [])]\<rparr>)"
proof -
  let ?wp = "\<lparr>db = [row_pending 3], outbox = []\<rparr>"
  let ?wr = "\<lparr>db = [row_reminded 3], outbox = []\<rparr>"
  let ?t1 = "[row_reminded 1\<lparr>last_prompt_ts := Some (IsoText (Naive 0))\<rparr>, row_pending 2,
              row_reminded 3, row_ack 4, default_row 5, row_corrupt 6]"
  let ?t2 = "[row_reminded 1\<lparr>last_prompt_ts := Some (IsoText (Naive 0))\<rparr>, row_reminded 2,
              row_reminded 3, row_ack 4, default_row 5, row_corrupt 6]"
  let ?o1 = "[(1::int, ''message.reminder'', [] :: string list)]"
  let ?o2 = "[(1::int, ''message.reminder'', [] :: string list), (2, ''message.reminder'', [])]"
  note rows = row_naive_def row_pending_def row_reminded_def row_ack_def default_row_def
    row_corrupt_def
  note eval = reminded_def decideReminder_def applyReminder_def hours24_def msk_utcoffset_def
    L_def
  have h0: "reminder_sent (row_reminded 3) = 1 \<or> answered (row_reminded 3) = 1 \<or>
    last_prompt_ts (row_reminded 3) = None \<or>
    (\<exists>d0. last_prompt_ts (row_reminded 3) = Some (IsoText d0) \<and> hours24 - to_msk d0 < hours24)"
    by (simp add: row_reminded_def)
  have h1: "reminder_sent (row_pending 3) \<noteq> 1 \<and> answered (row_pending 3) \<noteq> 1 \<and>
      last_prompt_ts (row_pending 3) = Some (IsoText (Aware 0)) \<and>
      hours24 \<le> hours24 - to_msk (Aware 0)"
    by (simp add: row_pending_def)
  have h2: "reliable (outbox ?wp) (user_id (row_pending 3), L ''message.reminder'' [])"
    by (simp add: reliable_def)
  have h3: "db_get_user (user_id (row_pending 3)) (db ?wp) = Some (row_pending 3)"
    by (simp add: row_pending_def db_get_user_def)
  have r: "(row_pending 3)\<lparr>reminder_sent := 1\<rparr> = row_reminded 3"
    by (simp add: row_pending_def row_reminded_def)
  have m: "db_mark_reminder_sent (user_id (row_pending 3)) [row_pending 3] = [row_reminded 3]"
    by (simp add: store_defs row_pending_def row_reminded_def)
  have d0: "distinct (map user_id (db \<lparr>db = scan_table, outbox = []\<rparr>))"
    by (simp add: scan_table_def rows)
  have d1: "distinct (map user_id (db \<lparr>db = ?t1, outbox = ?o1\<rparr>))"
    by (simp add: rows)
  have d2: "distinct (map user_id (db \<lparr>db = ?t2, outbox = ?o2\<rparr>))"
    by (simp add: rows)
  note inst0 = C5_reminder_once_per_prompt
      [where ?u0.0 = "row_reminded 3" and ?now0.0 = hours24 and tr = reliable and ?w0.0 = ?wr
         and u = "row_pending 3" and d = "Aware 0" and now = hours24 and w = ?wp
         and ?now2.0 = hours24 and ?tr2.0 = reliable and ?w2.0 = ?wr
         and wj = "\<lparr>db = scan_table, outbox = []\<rparr>" and nowj = 75600000000]
  note inst1 = C5_reminder_once_per_prompt
      [where ?u0.0 = "row_reminded 3" and ?now0.0 = hours24 and tr = reliable and ?w0.0 = ?wr
         and u = "row_pending 3" and d = "Aware 0" and now = hours24 and w = ?wp
         and ?now2.0 = hours24 and ?tr2.0 = reliable and ?w2.0 = ?wr
         and wj = "\<lparr>db = ?t1, outbox = ?o1\<rparr>" and nowj = 86400000000]
  have a: "reminder_scan_user reliable hours24 (row_reminded 3) ?wr = (None, ?wr)"
    using inst0 h0 by blast
  have "reminder_scan_user reliable hours24 (row_pending 3) ?wp
       = (None, \<lparr>db = db_mark_reminder_sent (user_id (row_pending 3)) (db ?wp),
                 outbox = outbox ?wp @ [(user_id (row_pending 3), L ''message.reminder'' [])]\<rparr>)"
    using inst0 h1 h2 by blast
  then have b: "reminder_scan_user reliable hours24 (row_pending 3) ?wp
       = (None, \<lparr>db = [row_reminded 3], outbox = [(3, ''message.reminder'', [])]\<rparr>)"
    by (simp add: m) (simp add: row_pending_def L_def)
  have "db_get_user (user_id (row_pending 3))
        (db (snd (reminder_scan_user reliable hours24 (row_pending 3) ?wp)))
      = Some ((row_pending 3)\<lparr>reminder_sent := 1\<rparr>)"
    using inst0 h1 h2 h3 by blast
  then have c: "db_get_user 3 (db (snd (reminder_scan_user reliable hours24 (row_pending 3) ?wp)))
      = Some (row_reminded 3)"
    by (simp add: r) (simp add: row_pending_def)
  have "reminder_scan_job reliable 75600000000 \<lparr>db = scan_table, outbox = []\<rparr>
     = (None, \<lparr>db = map (reminded 75600000000) (db \<lparr>db = scan_table, outbox = []\<rparr>),
               outbox = outbox \<lparr>db = scan_table, outbox = []\<rparr> @
                 map (\<lambda>r. (user_id r, L ''message.reminder'' []))
                   (filter (\<lambda>r. decideReminder r 75600000000 hours24 = SendReminder)
                      (db \<lparr>db = scan_table, outbox = []\<rparr>))\<rparr>)"
    using inst0 d0 by blast
  then have j0: "reminder_scan_job reliable 75600000000 \<lparr>db = scan_table, outbox = []\<rparr>
     = (None, \<lparr>db = ?t1, outbox = ?o1\<rparr>)"
    by (simp add: scan_table_def rows eval)
  have "reminder_scan_job reliable 86400000000 \<lparr>db = ?t1, outbox = ?o1\<rparr>
     = (None, \<lparr>db = map (reminded 86400000000) (db \<lparr>db = ?t1, outbox = ?o1\<rparr>),
               outbox = outbox \<lparr>db = ?t1, outbox = ?o1\<rparr> @
                 map (\<lambda>r. (user_id r, L ''message.reminder'' []))
                   (filter (\<lambda>r. decideReminder r 86400000000 hours24 = SendReminder)
                      (db \<lparr>db = ?t1, outbox = ?o1\<rparr>))\<rparr>)"
    using inst1 d1 by blast
  then have j1: "reminder_scan_job reliable 86400000000 \<lparr>db = ?t1, outbox = ?o1\<rparr>
     = (None, \<lparr>db = ?t2, outbox = ?o2\<rparr>)"
    by (simp add: rows eval)
  have "reminder_scan_job reliable 86400000000
          (snd (reminder_scan_job reliable 86400000000 \<lparr>db = ?t1, outbox = ?o1\<rparr>))
     = (None, snd (reminder_scan_job reliable 86400000000 \<lparr>db = ?t1, outbox = ?o1\<rparr>))"
    using inst1 d1 by blast
  then have j2: "reminder_scan_job reliable 86400000000 \<lparr>db = ?t2, outbox = ?o2\<rparr>
     = (None, \<lparr>db = ?t2, outbox = ?o2\<rparr>)"
    by (simp add: j1)
  from a b c j0 j1 j2 show ?thesis by simp
qed

section \<open>C6: when the catalog is read\<close>

text \<open>
  Claim C6 says that the catalog is loaded once, when the process starts, that it is never
  read again, and that a missing, malformed or empty catalog stops the start-up.
  \<open>main\<close> never calls \<open>load_prompts\<close>: with the catalog file missing, start-up reaches
  \<open>run_polling\<close> with the handlers and the daily job set up. The daily job reads the
  file at each run, so two runs from the same state with different file contents send
  different prompts.
\<close>

theorem C6_started_without_catalog_counterexample:
  "prompts_path env_no_catalog = NoFile
   \<and> main env_no_catalog =
       Inr \<lparr>app_db = [], app_locales = [(''ru_RU'', JObject [])],
            handlers = [''start'', ''stop'', ''text''], jobs = [''daily_9_msk'']\<rparr>
   \<and> daily_9_msk_job reliable (Json (JArray [JString ''A0'', JString ''A1''])) 100
        \<lparr>db = [row_ack 1], outbox = []\<rparr>
     = (None, \<lparr>db = [\<lparr>user_id = 1, prompt_index = 1, last_prompt_ts = Some (IsoText (Aware 100)),
                       answered = 0, reminder_sent = 0\<rparr>],
               outbox = [(1, ''message.sendprompt'', [''A1''])]\<rparr>)
   \<and> daily_9_msk_job reliable (Json (JArray [JString ''B0'', JString ''B1''])) 100
        \<lparr>db = [row_ack 1], outbox = []\<rparr>
     = (None, \<lparr>db = [\<lparr>user_id = 1, prompt_index = 1, last_prompt_ts = Some (IsoText (Aware 100)),
                       answered = 0, reminder_sent = 0\<rparr>],
               outbox = [(1, ''message.sendprompt'', [''B1''])]\<rparr>)"
  by (simp add: env_no_catalog_def main_def load_locales_def handler_defs send_defs store_defs
      row_ack_def)

text \<open>
  C6, as the code has it: \<open>load_prompts\<close> is called at each use, by \<open>/start\<close> and by
  each run of the daily job, and not by \<open>main\<close>, whose result does not depend on the
  catalog file. It returns a catalog exactly when the file holds a non-empty JSON array of
  strings, so no handler or job ever works with an empty catalog; in every other case it
  raises, and the job or handler that called it ends with that error before any message
  is sent or any prompt recorded.
\<close>

theorem C6_catalog_read_at_each_use:
  "(load_prompts fs = Inr ps \<longleftrightarrow> ps \<noteq> [] \<and> fs = Json (JArray (map JString ps)))
   \<and> (load_prompts fs = Inl e \<longrightarrow>
        daily_9_msk_job tr fs now w = (Some e, w) \<and>
        (effective_user upd = Some uid \<longrightarrow>
           start tr fs now upd w = (Some e, w\<lparr>db := db_ensure_user uid (db w)\<rparr>)))
   \<and> main (en\<lparr>prompts_path := fs\<rparr>) = main en"
proof (intro conjI impI)
  show "load_prompts fs = Inr ps \<longleftrightarrow> ps \<noteq> [] \<and> fs = Json (JArray (map JString ps))"
    by (rule load_prompts_Inr)
  show "main (en\<lparr>prompts_path := fs\<rparr>) = main en"
    by (simp add: main_def split: option.splits sum.splits)
  assume l: "load_prompts fs = Inl e"
  then show "daily_9_msk_job tr fs now w = (Some e, w)"
    by (simp add: daily_9_msk_job_def)
  assume "effective_user upd = Some uid"
  with l show "start tr fs now upd w = (Some e, w\<lparr>db := db_ensure_user uid (db w)\<rparr>)"
    by (simp add: start_def)
qed

theorem C6_catalog_read_at_each_use_witness:
  "load_prompts catalog2 = Inr [''P0'', ''P1'']
   \<and> daily_9_msk_job reliable NoFile 100 \<lparr>db = [row_ack 1], outbox = []\<rparr>
     = (Some FileNotFoundError, \<lparr>db = [row_ack 1], outbox = []\<rparr>)
   \<and> start reliable (Json (JArray [])) 100 user1 \<lparr>db = [], outbox = []\<rparr>
     = (Some (ValueError ''prompts.json is empty''), \<lparr>db = [default_row 1], outbox = []\<rparr>)"
proof -
  have c: "[''P0'', ''P1''] \<noteq> [] \<and> catalog2 = Json (JArray (map JString [''P0'', ''P1'']))"
    by (simp add: catalog2_def)
  have m: "load_prompts NoFile = Inl FileNotFoundError"
    by (simp add: load_prompts_def)
  have e: "load_prompts (Json (JArray [])) = Inl (ValueError ''prompts.json is empty'')"
    by (simp add: load_prompts_def)
  have u: "effective_user user1 = Some 1"
    by (simp add: user1_def)
  from C6_catalog_read_at_each_use [where fs = catalog2 and ps = "[''P0'', ''P1'']"] c
  have "load_prompts catalog2 = Inr [''P0'', ''P1'']" by blast
  moreover from C6_catalog_read_at_each_use
    [where fs = NoFile and e = FileNotFoundError and tr = reliable and now = 100
       and w = "\<lparr>db = [row_ack 1], outbox = []\<rparr>"] m
  have "daily_9_msk_job reliable NoFile 100 \<lparr>db = [row_ack 1], outbox = []\<rparr>
     = (Some FileNotFoundError, \<lparr>db = [row_ack 1], outbox = []\<rparr>)" by blast
  moreover from C6_catalog_read_at_each_use
    [where fs = "Json (JArray [])" and e = "ValueError ''prompts.json is empty''" and tr = reliable
       and now = 100 and w = "\<lparr>db = [], outbox = []\<rparr>" and upd = user1 and uid = 1] e u
  have "start reliable (Json (JArray [])) 100 user1 \<lparr>db = [], outbox = []\<rparr>
     = (Some (ValueError ''prompts.json is empty''), \<lparr>db = [default_row 1], outbox = []\<rparr>)"
    by (simp add: db_ensure_user_def)
  ultimately show ?thesis by simp
qed

section \<open>C7: a stored time that cannot be read\<close>

text \<open>
  C7: a row whose stored \<open>last_prompt_ts\<close> does not parse is skipped by the reminder
  scan: its step returns normally with the state as it was, the scan of a batch that
  holds the row is the scan of the other rows of the batch, and the row itself is the
  same afterwards (its id being that of no other row). The scan can end with an error
  only when a message is not delivered, and never does when every message is delivered.
\<close>

theorem C7_malformed_timestamp_skipped:
  "last_prompt_ts u = Some (BadText s) \<longrightarrow>
     reminder_scan_user tr now u w = (None, w) \<and>
     reminder_scan_loop tr now (us1 @ u # us2) w = reminder_scan_loop tr now (us1 @ us2) w \<and>
     (db w = us1 @ u # us2 \<longrightarrow>
        reminder_scan_job tr now w = reminder_scan_loop tr now (us1 @ us2) w \<and>
        (user_id u \<notin> set (map user_id (us1 @ us2)) \<longrightarrow>
           db_get_user (user_id u) (db (snd (reminder_scan_job tr now w))) = Some u)) \<and>
     (fst (reminder_scan_job tr now w) = None \<or>
      fst (reminder_scan_job tr now w) = Some TelegramError) \<and>
     fst (reminder_scan_job reliable now w) = None"
proof (intro conjI impI)
  assume bad: "last_prompt_ts u = Some (BadText s)"
  then show skip: "reminder_scan_user tr now u w = (None, w)" for w
    using reminder_scan_user_skip [of u now tr w] by blast
  show eq: "reminder_scan_loop tr now (us1 @ u # us2) w = reminder_scan_loop tr now (us1 @ us2) w"
  proof (cases "reminder_scan_loop tr now us1 w")
    case (Pair r w1)
    then show ?thesis
      by (cases r) (simp_all add: reminder_scan_loop_append [of tr now us1] skip)
  qed
  show "fst (reminder_scan_job tr now w) = None \<or>
      fst (reminder_scan_job tr now w) = Some TelegramError"
  proof (cases "reminder_scan_job tr now w")
    case (Pair r w1)
    then show ?thesis
      using reminder_scan_loop_error [of tr now "db w" w _ w1]
      by (cases r) (auto simp: reminder_scan_job_def db_all_users_def)
  qed
  show "fst (reminder_scan_job reliable now w) = None"
    by (simp add: reminder_scan_job_def reminder_scan_loop_reliable)
  assume dbw: "db w = us1 @ u # us2"
  then show job: "reminder_scan_job tr now w = reminder_scan_loop tr now (us1 @ us2) w"
    by (simp add: reminder_scan_job_def db_all_users_def eq)
  assume other: "user_id u \<notin> set (map user_id (us1 @ us2))"
  then have "db_get_user (user_id u) us1 = None" by (simp add: db_get_user_None)
  then have "db_get_user (user_id u) (db w) = Some u"
    by (simp add: dbw db_get_user_append_absent) (simp add: db_get_user_def)
  then show "db_get_user (user_id u) (db (snd (reminder_scan_job tr now w))) = Some u"
    using reminder_scan_loop_other_rows [OF other, of tr now w] by (simp add: job)
qed

theorem C7_malformed_timestamp_skipped_witness:
  "reminder_scan_job reliable hours24
       \<lparr>db = [row_pending 1, row_corrupt 2, row_pending 3], outbox = []\<rparr>
     = reminder_scan_loop reliable hours24 [row_pending 1, row_pending 3]
         \<lparr>db = [row_pending 1, row_corrupt 2, row_pending 3], outbox = []\<rparr>
   \<and> reminder_scan_job reliable hours24
       \<lparr>db = [row_pending 1, row_corrupt 2, row_pending 3], outbox = []\<rparr>
     = (None, \<lparr>db = [row_reminded 1, row_corrupt 2, row_reminded 3],
               outbox = [(1, ''message.reminder'', []), (3, ''message.reminder'', [])]\<rparr>)"
proof -
  let ?w = "\<lparr>db = [row_pending 1, row_corrupt 2, row_pending 3], outbox = []\<rparr>"
  have h: "last_prompt_ts (row_corrupt 2) = Some (BadText ''yesterday'')"
    by (simp add: row_corrupt_def)
  have d: "db ?w = [row_pending 1] @ row_corrupt 2 # [row_pending 3]"
    by simp
  have o: "user_id (row_corrupt 2) \<notin> set (map user_id ([row_pending 1] @ [row_pending 3]))"
    by (simp add: row_corrupt_def row_pending_def)
  have run: "reminder_scan_loop reliable hours24 [row_pending 1, row_pending 3] ?w
     = (None, \<lparr>db = [row_reminded 1, row_corrupt 2, row_reminded 3],
               outbox = [(1, ''message.reminder'', []), (3, ''message.reminder'', [])]\<rparr>)"
    by (simp add: handler_defs send_defs store_defs row_pending_def row_reminded_def
        row_corrupt_def hours24_def)
  from C7_malformed_timestamp_skipped
    [where u = "row_corrupt 2" and s = "''yesterday''" and tr = reliable and now = hours24
       and w = ?w and ?us1.0 = "[row_pending 1]" and ?us2.0 = "[row_pending 3]"] h d o run
  show ?thesis by simp
qed

section \<open>C8: a text from the user\<close>

text \<open>
  C8: a text from a user leaves the row of the user as it is when \<open>last_prompt_ts\<close> is
  absent or \<open>answered\<close> is already 1 (the table is the one \<open>db_ensure_user\<close> gives,
  which is the table itself when the user has a row), and otherwise sets \<open>answered\<close> to
  1. In each of the three cases one reply goes to the chat of the message, and the handler
  returns normally when that reply is delivered. For a user who has been sent a prompt, a
  first text leaves \<open>answered = 1\<close> and a second text returns normally, changes nothing
  in the table and replies again.
\<close>

theorem C8_acknowledge_idempotent:
  "effective_user upd = Some uid \<and> message_chat upd = Some chat \<and>
   db_get_user uid (db_ensure_user uid (db w)) = Some u \<longrightarrow>
     (uid \<in> set (map user_id (db w)) \<longrightarrow> db_ensure_user uid (db w) = db w) \<and>
     (last_prompt_ts u = None \<or> answered u = 1 \<longrightarrow>
        db (snd (on_text tr upd w)) = db_ensure_user uid (db w) \<and>
        db_get_user uid (db (snd (on_text tr upd w))) = Some u) \<and>
     (last_prompt_ts u \<noteq> None \<and> answered u \<noteq> 1 \<longrightarrow>
        db (snd (on_text tr upd w)) = db_mark_answered uid (db_ensure_user uid (db w)) \<and>
        db_get_user uid (db (snd (on_text tr upd w))) = Some (u\<lparr>answered := 1\<rparr>)) \<and>
     (tr (outbox w) (chat, L (if last_prompt_ts u = None then ''reply.err.noinitprompt''
                              else ''reply.complete.received'') []) \<longrightarrow>
        fst (on_text tr upd w) = None \<and>
        outbox (snd (on_text tr upd w)) =
          outbox w @ [(chat, L (if last_prompt_ts u = None then ''reply.err.noinitprompt''
                                else ''reply.complete.received'') [])]) \<and>
     (last_prompt_ts u \<noteq> None \<longrightarrow>
        fst (on_text reliable upd w) = None \<and>
        map_option answered (db_get_user uid (db (snd (on_text reliable upd w)))) = Some 1 \<and>
        on_text reliable upd (snd (on_text reliable upd w)) =
          (None, (snd (on_text reliable upd w))
                   \<lparr>outbox := outbox (snd (on_text reliable upd w)) @
                                [(chat, L ''reply.complete.received'' [])]\<rparr>))"
proof (intro conjI impI)
  assume h: "effective_user upd = Some uid \<and> message_chat upd = Some chat \<and>
   db_get_user uid (db_ensure_user uid (db w)) = Some u"
  then have eu: "effective_user upd = Some uid" and mc: "message_chat upd = Some chat"
    and g: "db_get_user uid (db_ensure_user uid (db w)) = Some u" by simp_all
  note dbeq = on_text_db [OF eu mc g]
  {
    assume "uid \<in> set (map user_id (db w))"
    then show "db_ensure_user uid (db w) = db w" by (simp add: db_ensure_user_def)
  }
  {
    assume c: "last_prompt_ts u = None \<or> answered u = 1"
    then show d: "db (snd (on_text tr upd w)) = db_ensure_user uid (db w)"
      using dbeq by auto
    show "db_get_user uid (db (snd (on_text tr upd w))) = Some u"
      by (simp add: d g)
  }
  {
    assume c: "last_prompt_ts u \<noteq> None \<and> answered u \<noteq> 1"
    then show d: "db (snd (on_text tr upd w)) = db_mark_answered uid (db_ensure_user uid (db w))"
      using dbeq by auto
    show "db_get_user uid (db (snd (on_text tr upd w))) = Some (u\<lparr>answered := 1\<rparr>)"
      by (simp add: d g db_get_user_mark_answered)
  }
  {
    assume t: "tr (outbox w) (chat, L (if last_prompt_ts u = None then ''reply.err.noinitprompt''
                              else ''reply.complete.received'') [])"
    show "fst (on_text tr upd w) = None"
      by (simp add: on_text_delivered [where tr = tr, OF eu mc g t])
    show "outbox (snd (on_text tr upd w)) =
          outbox w @ [(chat, L (if last_prompt_ts u = None then ''reply.err.noinitprompt''
                                else ''reply.complete.received'') [])]"
      by (simp add: on_text_delivered [where tr = tr, OF eu mc g t])
  }
  {
    assume p: "last_prompt_ts u \<noteq> None"
    have r: "reliable ob m" for ob m by (simp add: reliable_def)
    let ?k = "L (if last_prompt_ts u = None then ''reply.err.noinitprompt''
                 else ''reply.complete.received'') []"
    let ?d1 = "if last_prompt_ts u = None \<or> answered u = 1 then db_ensure_user uid (db w)
               else db_mark_answered uid (db_ensure_user uid (db w))"
    have first: "on_text reliable upd w = (None, \<lparr>db = ?d1, outbox = outbox w @ [(chat, ?k)]\<rparr>)"
      by (rule on_text_delivered [where tr = reliable, OF eu mc g r])
    show "fst (on_text reliable upd w) = None"
      by (simp add: first)
    have g1: "db_get_user uid ?d1 = Some (u\<lparr>answered := 1\<rparr>)"
      using g by (cases "answered u = 1") (simp_all add: p db_get_user_mark_answered)
    then show "map_option answered (db_get_user uid (db (snd (on_text reliable upd w)))) = Some 1"
      by (simp add: first)
    let ?v = "\<lparr>db = ?d1, outbox = outbox w @ [(chat, ?k)]\<rparr>"
    have g2: "db_get_user uid (db ?v) = Some (u\<lparr>answered := 1\<rparr>)"
      using g1 by simp
    have "on_text reliable upd ?v =
        send_message reliable (chat, L ''reply.complete.received'' []) ?v"
      by (rule on_text_answered [OF eu mc g2]) (simp_all add: p)
    then show "on_text reliable upd (snd (on_text reliable upd w)) =
          (None, (snd (on_text reliable upd w))
                   \<lparr>outbox := outbox (snd (on_text reliable upd w)) @
                                [(chat, L ''reply.complete.received'' [])]\<rparr>)"
      by (simp add: first)
  }
qed

theorem C8_acknowledge_idempotent_witness:
  "fst (on_text reliable user1 \<lparr>db = [row_pending 1], outbox = []\<rparr>) = None
   \<and> db (snd (on_text reliable user1 \<lparr>db = [row_pending 1], outbox = []\<rparr>)) = [row_ack 1]
   \<and> outbox (snd (on_text reliable user1 \<lparr>db = [row_pending 1], outbox = []\<rparr>))
       = [(1, ''reply.complete.received'', [])]
   \<and> on_text reliable user1 (snd (on_text reliable user1 \<lparr>db = [row_pending 1], outbox = []\<rparr>))
       = (None, \<lparr>db = [row_ack 1],
                 outbox = [(1, ''reply.complete.received'', []),
                           (1, ''reply.complete.received'', [])]\<rparr>)
   \<and> fst (on_text reliable user1 \<lparr>db = [], outbox = []\<rparr>) = None
   \<and> db (snd (on_text reliable user1 \<lparr>db = [], outbox = []\<rparr>)) = [default_row 1]
   \<and> outbox (snd (on_text reliable user1 \<lparr>db = [], outbox = []\<rparr>))
       = [(1, ''reply.err.noinitprompt'', [])]"
proof -
  let ?wp = "\<lparr>db = [row_pending 1], outbox = []\<rparr>"
  let ?wn = "\<lparr>db = [], outbox = []\<rparr>"
  have hp: "effective_user user1 = Some 1 \<and> message_chat user1 = Some 1 \<and>
    db_get_user 1 (db_ensure_user 1 (db ?wp)) = Some (row_pending 1)"
    by (simp add: user1_def store_defs row_pending_def)
  have hp1: "1 \<in> set (map user_id (db ?wp))"
    by (simp add: row_pending_def)
  have hp2: "last_prompt_ts (row_pending 1) \<noteq> None \<and> answered (row_pending 1) \<noteq> 1"
    by (simp add: row_pending_def)
  have hp3: "reliable (outbox ?wp)
      (1, L (if last_prompt_ts (row_pending 1) = None then ''reply.err.noinitprompt''
             else ''reply.complete.received'') [])"
    by (simp add: reliable_def)
  have hn: "effective_user user1 = Some 1 \<and> message_chat user1 = Some 1 \<and>
    db_get_user 1 (db_ensure_user 1 (db ?wn)) = Some (default_row 1)"
    by (simp add: user1_def store_defs)
  have hn1: "last_prompt_ts (default_row 1) = None \<or> answered (default_row 1) = 1"
    by (simp add: default_row_def)
  have hn2: "reliable (outbox ?wn)
      (1, L (if last_prompt_ts (default_row 1) = None then ''reply.err.noinitprompt''
             else ''reply.complete.received'') [])"
    by (simp add: reliable_def)
  have ack: "db_mark_answered 1 [row_pending 1] = [row_ack 1]"
    by (simp add: store_defs row_pending_def row_ack_def)
  have ens: "db_ensure_user 1 [] = [default_row 1]"
    by (simp add: db_ensure_user_def)
  have pending: "fst (on_text reliable user1 ?wp) = None
     \<and> db (snd (on_text reliable user1 ?wp)) = [row_ack 1]
     \<and> outbox (snd (on_text reliable user1 ?wp)) = [(1, ''reply.complete.received'', [])]
     \<and> on_text reliable user1 (snd (on_text reliable user1 ?wp))
       = (None, \<lparr>db = [row_ack 1],
                 outbox = [(1, ''reply.complete.received'', []),
                           (1, ''reply.complete.received'', [])]\<rparr>)"
    using C8_acknowledge_idempotent
      [where upd = user1 and uid = 1 and chat = 1 and w = ?wp and u = "row_pending 1"
         and tr = reliable] hp hp1 hp2 hp3
    by (cases "snd (on_text reliable user1 ?wp)") (simp add: ack L_def reliable_def)
  have fresh: "fst (on_text reliable user1 ?wn) = None
     \<and> db (snd (on_text reliable user1 ?wn)) = [default_row 1]
     \<and> outbox (snd (on_text reliable user1 ?wn)) = [(1, ''reply.err.noinitprompt'', [])]"
    using C8_acknowledge_idempotent
      [where upd = user1 and uid = 1 and chat = 1 and w = ?wn and u = "default_row 1"
         and tr = reliable] hn hn1 hn2
    by (simp add: ens L_def reliable_def) (simp add: default_row_def)
  from pending fresh show ?thesis by simp
qed

section \<open>C9: unsubscribing\<close>

text \<open>
  C9: \<open>/stop\<close> deletes the row of the user whatever the row holds, whether or not the
  user has a row and whether or not the reply is delivered; a second \<open>/stop\<close> changes
  nothing more. Afterwards the user is new again: \<open>db_ensure_user\<close> gives a row with
  index 0, no time and both flags cleared, at its place in the order of the ids;
  \<open>/start\<close> sends the first prompt of the catalog and records it in that row, and a
  text is answered with the reply for a user who has no prompt yet and leaves the fresh
  row. A table with distinct, ascending ids stays so through all of this.
\<close>

theorem C9_unsubscribe_then_new:
  "effective_user upd = Some uid \<longrightarrow>
     db (snd (stop tr upd w)) = db_delete_user uid (db w) \<and>
     db_get_user uid (db (snd (stop tr upd w))) = None \<and>
     db (snd (stop tr upd (snd (stop tr upd w)))) = db (snd (stop tr upd w)) \<and>
     (message_chat upd = Some chat \<and> tr (outbox w) (chat, L ''reply.unsub'' []) \<longrightarrow>
        stop tr upd w =
          (None, \<lparr>db = db_delete_user uid (db w),
                  outbox = outbox w @ [(chat, L ''reply.unsub'' [])]\<rparr>)) \<and>
     db_get_user uid (db_ensure_user uid (db (snd (stop tr upd w)))) = Some (default_row uid) \<and>
     (effective_user upd2 = Some uid \<and> message_chat upd2 = Some chat2 \<longrightarrow>
        (load_prompts fs = Inr ps \<longrightarrow>
           start reliable fs now upd2 (snd (stop tr upd w)) =
             (None, \<lparr>db = insort_key user_id
                           \<lparr>user_id = uid, prompt_index = 0,
                            last_prompt_ts = Some (isoformat (Aware now)),
                            answered = 0, reminder_sent = 0\<rparr>
                           (db_delete_user uid (db w)),
                     outbox = outbox (snd (stop tr upd w)) @
                           [(chat2, L ''reply.sub'' []),
                            (uid, L ''message.sendprompt'' [ps ! 0])]\<rparr>) \<and>
           db_get_user uid (db (snd (start reliable fs now upd2 (snd (stop tr upd w))))) =
             Some \<lparr>user_id = uid, prompt_index = 0,
                   last_prompt_ts = Some (isoformat (Aware now)),
                   answered = 0, reminder_sent = 0\<rparr>) \<and>
        on_text reliable upd2 (snd (stop tr upd w)) =
          (None, \<lparr>db = insort_key user_id (default_row uid) (db_delete_user uid (db w)),
                  outbox = outbox (snd (stop tr upd w)) @
                        [(chat2, L ''reply.err.noinitprompt'' [])]\<rparr>)) \<and>
     (rows_ok (db w) \<longrightarrow>
        rows_ok (db (snd (stop tr upd w))) \<and>
        rows_ok (db (snd (start tr fs now upd2 (snd (stop tr upd w))))) \<and>
        rows_ok (db (snd (on_text tr upd2 (snd (stop tr upd w))))))"
proof (intro conjI impI)
  assume eu: "effective_user upd = Some uid"
  show d: "db (snd (stop tr upd w)) = db_delete_user uid (db w)" for w
    by (rule stop_db [OF eu])
  show "db_get_user uid (db (snd (stop tr upd w))) = None"
    by (simp add: d db_get_user_delete)
  show "db (snd (stop tr upd (snd (stop tr upd w)))) = db (snd (stop tr upd w))"
    by (simp add: d db_delete_user_idem)
  show g: "db_get_user uid (db_ensure_user uid (db (snd (stop tr upd w)))) = Some (default_row uid)"
    by (simp add: d db_get_user_ensure_absent db_get_user_delete)
  {
    assume "message_chat upd = Some chat \<and> tr (outbox w) (chat, L ''reply.unsub'' [])"
    then show "stop tr upd w =
          (None, \<lparr>db = db_delete_user uid (db w),
                  outbox = outbox w @ [(chat, L ''reply.unsub'' [])]\<rparr>)"
      using eu by (simp add: stop_def reply_text_def send_message_def)
  }
  {
    assume h2: "effective_user upd2 = Some uid \<and> message_chat upd2 = Some chat2"
    have r: "reliable ob m" for ob m by (simp add: reliable_def)
    have nop: "last_prompt_ts (default_row uid) = None" by (simp add: default_row_def)
    let ?v = "snd (stop tr upd w)"
    have "on_text reliable upd2 ?v =
        send_message reliable (chat2, L ''reply.err.noinitprompt'' [])
          (?v\<lparr>db := db_ensure_user uid (db ?v)\<rparr>)"
      using h2 by (intro on_text_no_prompt [OF _ _ g nop]) simp_all
    then show "on_text reliable upd2 (snd (stop tr upd w)) =
          (None, \<lparr>db = insort_key user_id (default_row uid) (db_delete_user uid (db w)),
                  outbox = outbox (snd (stop tr upd w)) @
                        [(chat2, L ''reply.err.noinitprompt'' [])]\<rparr>)"
      by (simp add: d ensure_after_delete)
    assume l: "load_prompts fs = Inr ps"
    have "start reliable fs now upd2 ?v =
      (None, \<lparr>db = db_mark_prompt_sent uid 0 (Aware now) (db_ensure_user uid (db ?v)),
              outbox = outbox ?v @ [(chat2, L ''reply.sub'' []),
                                    (uid, L ''message.sendprompt'' [ps ! 0])]\<rparr>)"
      using h2 l g nop r by (simp add: start_bootstrap [where u = "default_row uid"])
    then show st: "start reliable fs now upd2 (snd (stop tr upd w)) =
             (None, \<lparr>db = insort_key user_id
                           \<lparr>user_id = uid, prompt_index = 0,
                            last_prompt_ts = Some (isoformat (Aware now)),
                            answered = 0, reminder_sent = 0\<rparr>
                           (db_delete_user uid (db w)),
                     outbox = outbox (snd (stop tr upd w)) @
                           [(chat2, L ''reply.sub'' []),
                            (uid, L ''message.sendprompt'' [ps ! 0])]\<rparr>)"
      by (simp add: d ensure_after_delete mark_prompt_after_ensure_delete)
    show "db_get_user uid (db (snd (start reliable fs now upd2 (snd (stop tr upd w))))) =
             Some \<lparr>user_id = uid, prompt_index = 0,
                   last_prompt_ts = Some (isoformat (Aware now)),
                   answered = 0, reminder_sent = 0\<rparr>"
      by (simp add: st db_get_user_insort db_get_user_delete)
  }
  {
    assume ok: "rows_ok (db w)"
    then show ok1: "rows_ok (db (snd (stop tr upd w)))"
      by (rule rows_ok_stop)
    from ok1 show "rows_ok (db (snd (start tr fs now upd2 (snd (stop tr upd w)))))"
      by (rule rows_ok_start)
    from ok1 show "rows_ok (db (snd (on_text tr upd2 (snd (stop tr upd w)))))"
      by (rule rows_ok_on_text)
  }
qed

theorem C9_unsubscribe_then_new_witness:
  "stop reliable user1 \<lparr>db = [row_ack 1, row_pending 2], outbox = []\<rparr>
     = (None, \<lparr>db = [row_pending 2], outbox = [(1, ''reply.unsub'', [])]\<rparr>)
   \<and> start reliable catalog2 100 user1
       (snd (stop reliable user1 \<lparr>db = [row_ack 1, row_pending 2], outbox = []\<rparr>))
     = (None, \<lparr>db = [\<lparr>user_id = 1, prompt_index = 0, last_prompt_ts = Some (IsoText (Aware 100)),
                       answered = 0, reminder_sent = 0\<rparr>,
                      row_pending 2],
               outbox = [(1, ''reply.unsub'', []), (1, ''reply.sub'', []),
                         (1, ''message.sendprompt'', [''P0''])]\<rparr>)
   \<and> on_text reliable user1
       (snd (stop reliable user1 \<lparr>db = [row_ack 1, row_pending 2], outbox = []\<rparr>))
     = (None, \<lparr>db = [default_row 1, row_pending 2],
               outbox = [(1, ''reply.unsub'', []), (1, ''reply.err.noinitprompt'', [])]\<rparr>)
   \<and> rows_ok (db (snd (start reliable catalog2 100 user1
       (snd (stop reliable user1 \<lparr>db = [row_ack 1, row_pending 2], outbox = []\<rparr>)))))"
proof -
  let ?w = "\<lparr>db = [row_ack 1, row_pending 2], outbox = []\<rparr>"
  have h1: "effective_user user1 = Some 1"
    by (simp add: user1_def)
  have h2: "message_chat user1 = Some 1 \<and> reliable (outbox ?w) (1, L ''reply.unsub'' [])"
    by (simp add: user1_def reliable_def)
  have h3: "effective_user user1 = Some 1 \<and> message_chat user1 = Some 1"
    by (simp add: user1_def)
  have h4: "load_prompts catalog2 = Inr [''P0'', ''P1'']"
    by (simp add: load_prompts_def catalog2_def)
  have del: "db_delete_user 1 [row_ack 1, row_pending 2] = [row_pending 2]"
    by (simp add: db_delete_user_def row_ack_def row_pending_def)
  have k: "user_id (row_pending 2) = 2" and k1: "user_id (default_row 1) = 1"
    by (simp_all add: row_pending_def default_row_def)
  note inst = C9_unsubscribe_then_new
    [where upd = user1 and uid = 1 and tr = reliable and w = ?w and chat = 1
       and ?upd2.0 = user1 and ?chat2.0 = 1 and fs = catalog2 and ps = "[''P0'', ''P1'']"
       and now = 100]
  have s: "stop reliable user1 ?w
     = (None, \<lparr>db = [row_pending 2], outbox = [(1, ''reply.unsub'', [])]\<rparr>)"
    using inst h1 h2 by (simp add: del L_def)
  have h5: "rows_ok (db ?w)"
    by (simp add: rows_ok_def row_ack_def row_pending_def)
  have ok: "rows_ok (db (snd (start reliable catalog2 100 user1 (snd (stop reliable user1 ?w)))))"
    using inst h1 h5 by blast
  from inst h1 h3 h4 ok show ?thesis
    by (simp add: s del k k1 L_def isoformat_def)
qed

section \<open>C10: subscribing again\<close>

text \<open>
  C10: \<open>/start\<close> from a user whose row has a \<open>last_prompt_ts\<close> leaves the table as it
  is, whatever else happens; the only message it can send is the reply that the user is
  subscribed already, and it sends exactly that one when the catalog loads and the reply is
  delivered.
\<close>

theorem C10_start_again_changes_nothing:
  "effective_user upd = Some uid \<and> db_get_user uid (db w) = Some u \<and> last_prompt_ts u \<noteq> None
   \<longrightarrow> db (snd (start tr fs now upd w)) = db w \<and>
       (outbox (snd (start tr fs now upd w)) = outbox w \<or>
        (\<exists>c. message_chat upd = Some c \<and>
           outbox (snd (start tr fs now upd w)) =
             outbox w @ [(c, L ''reply.err.alreadysub'' [])])) \<and>
       (message_chat upd = Some chat \<and> load_prompts fs = Inr ps \<and>
        tr (outbox w) (chat, L ''reply.err.alreadysub'' [])
        \<longrightarrow> start tr fs now upd w =
              (None, w\<lparr>outbox := outbox w @ [(chat, L ''reply.err.alreadysub'' [])]\<rparr>))"
proof (intro conjI impI)
  assume h: "effective_user upd = Some uid \<and> db_get_user uid (db w) = Some u \<and>
    last_prompt_ts u \<noteq> None"
  then have st: "start tr fs now upd w =
    (case load_prompts fs of
       Inl e \<Rightarrow> (Some e, w)
     | Inr ps \<Rightarrow> reply_text tr upd (L ''reply.err.alreadysub'' []) w)"
    using start_subscribed [of upd uid w u tr fs now] by blast
  show "db (snd (start tr fs now upd w)) = db w"
    by (auto simp: st reply_text_def send_message_def split: sum.splits option.splits)
  show "outbox (snd (start tr fs now upd w)) = outbox w \<or>
        (\<exists>c. message_chat upd = Some c \<and>
           outbox (snd (start tr fs now upd w)) =
             outbox w @ [(c, L ''reply.err.alreadysub'' [])])"
    by (auto simp: st reply_text_def send_message_def split: sum.splits option.splits)
  assume "message_chat upd = Some chat \<and> load_prompts fs = Inr ps \<and>
        tr (outbox w) (chat, L ''reply.err.alreadysub'' [])"
  then show "start tr fs now upd w =
              (None, w\<lparr>outbox := outbox w @ [(chat, L ''reply.err.alreadysub'' [])]\<rparr>)"
    by (simp add: st reply_text_def send_message_def)
qed

theorem C10_start_again_changes_nothing_witness:
  "start reliable catalog2 100 user1 \<lparr>db = [row_pending 1], outbox = []\<rparr>
     = (None, \<lparr>db = [row_pending 1], outbox = [(1, ''reply.err.alreadysub'', [])]\<rparr>)"
proof -
  let ?w = "\<lparr>db = [row_pending 1], outbox = []\<rparr>"
  have h1: "effective_user user1 = Some 1 \<and> db_get_user 1 (db ?w) = Some (row_pending 1) \<and>
    last_prompt_ts (row_pending 1) \<noteq> None"
    by (simp add: user1_def db_get_user_def row_pending_def)
  have h2: "message_chat user1 = Some 1 \<and> load_prompts catalog2 = Inr [''P0'', ''P1''] \<and>
        reliable (outbox ?w) (1, L ''reply.err.alreadysub'' [])"
    by (simp add: user1_def load_prompts_def catalog2_def reliable_def)
  from C10_start_again_changes_nothing
    [where upd = user1 and uid = 1 and w = ?w and u = "row_pending 1" and tr = reliable
       and fs = catalog2 and now = 100 and chat = 1 and ps = "[''P0'', ''P1'']"] h1 h2
  show ?thesis by (simp add: L_def)
qed

end
